theory Spec2Isabelle
  imports Complex_Main "HOL-Library.Word" "HOL-Library.Sublist" "HOL-Library.Multiset"
begin

section \<open>Values held in a Go \<open>interface{}\<close>\<close>

text \<open>
  The pipeline passes the decoded output of a function around as an \<open>interface{}\<close>.
  The type switches of \<open>getPostgreSQLType\<close>, \<open>CreateTableFromData\<close>,
  \<open>InsertDataToTable\<close> and \<open>insertSingleRecord\<close> look at the dynamic type only, so a
  value is a tag with its payload. A \<open>map[string]interface{}\<close> is the list of its entries
  in the order in which \<open>range\<close> happens to visit them (Go leaves that order open); its
  keys are distinct.

  A float is either a finite number or one of the values that \<open>json.Marshal\<close> refuses.
\<close>

datatype float = Finite rat | NaN | Inf bool

datatype gvalue =
    VNil
  | VInt "64 word"
  | VInt32 "32 word"
  | VInt64 "64 word"
  | VFloat32 float
  | VFloat64 float
  | VBool bool
  | VString string
  | VSlice "gvalue list"
  | VMap "(string \<times> gvalue) list"

subsection \<open>\<open>getPostgreSQLType\<close>\<close>

fun getPostgreSQLType :: "gvalue \<Rightarrow> string" where
  "getPostgreSQLType (VInt _) = ''INTEGER''"
| "getPostgreSQLType (VInt32 _) = ''INTEGER''"
| "getPostgreSQLType (VInt64 _) = ''INTEGER''"
| "getPostgreSQLType (VFloat32 _) = ''NUMERIC''"
| "getPostgreSQLType (VFloat64 _) = ''NUMERIC''"
| "getPostgreSQLType (VBool _) = ''BOOLEAN''"
| "getPostgreSQLType (VSlice _) = ''JSONB''"
| "getPostgreSQLType (VMap _) = ''JSONB''"
| "getPostgreSQLType (VString _) = ''TEXT''"
| "getPostgreSQLType VNil = ''TEXT''"

section \<open>Statements sent to the relational store\<close>

text \<open>
  The code builds the text of each statement with \<open>fmt.Sprintf\<close> and hands it to
  \<open>db.Exec\<close>. A statement is kept here by its parts: the table name, the column
  definitions (name and type) of a \<open>CREATE TABLE\<close>, the column names and the bound
  arguments of an \<open>INSERT\<close>; the placeholders \<open>$1, $2, ...\<close> are the positions of the
  argument list.

  A bound argument is the Go value itself, the text \<open>string(json.Marshal(v))\<close>, or the
  text \<open>fmt.Sprintf("%v", v)\<close>; the two texts are kept by the value they are made from.
\<close>

datatype sqlarg = Bound gvalue | JSONText gvalue | FmtText gvalue

datatype stmt =
    DropTableIfExists string
  | CreateTable string "(string \<times> string) list"
  | InsertInto string "string list" "sqlarg list"

definition idColumn :: "string \<times> string" where
  "idColumn = (''id'', ''SERIAL PRIMARY KEY'')"

definition dataColumns :: "(string \<times> gvalue) list \<Rightarrow> (string \<times> string) list" where
  "dataColumns v = map (\<lambda>(key, val). (key, getPostgreSQLType val)) v"

text \<open>The \<open>createQuery\<close> chosen by the type switch of \<open>CreateTableFromData\<close>.\<close>

fun createQuery :: "string \<Rightarrow> gvalue \<Rightarrow> stmt" where
  "createQuery tableName (VMap v) = CreateTable tableName (idColumn # dataColumns v)"
| "createQuery tableName (VSlice []) = CreateTable tableName [idColumn, (''data'', ''JSONB'')]"
| "createQuery tableName (VSlice (VMap firstItem # _)) =
     CreateTable tableName (idColumn # dataColumns firstItem)"
| "createQuery tableName (VSlice (_ # _)) = CreateTable tableName [idColumn, (''value'', ''TEXT'')]"
| "createQuery tableName _ = CreateTable tableName [idColumn, (''data'', ''JSONB'')]"

section \<open>Errors\<close>

text \<open>
  One constructor for each place where the code makes an error with \<open>fmt.Errorf\<close> (the
  fields are the arguments of the format), and one for an error of \<open>db.Exec\<close> that
  \<open>insertSingleRecord\<close> returns as it is.
\<close>

datatype error =
    RequiresParameters string
  | CreateTempMainFailed string
  | ExecuteFailed string string
  | DropFailed string
  | CreateFailed string string
  | InsertPrimitiveFailed string
  | MarshalJSONFailed
  | InsertJSONFailed string
  | MarshalComplexFailed
  | ExecError string
  | ParseFailed string string
  | CloneFailed string
  | ConnectFailed string
  | FindGoFilesFailed string

text \<open>
  \<open>json.Marshal\<close> fails on a value of the types above only when a float in it is not
  finite.
\<close>

fun finite_float :: "float \<Rightarrow> bool" where
  "finite_float (Finite _) = True"
| "finite_float _ = False"

fun marshalable :: "gvalue \<Rightarrow> bool" where
  "marshalable (VFloat32 f) = finite_float f"
| "marshalable (VFloat64 f) = finite_float f"
| "marshalable (VSlice xs) = list_all marshalable xs"
| "marshalable (VMap kvs) = list_all (\<lambda>kv. marshalable (snd kv)) kvs"
| "marshalable _ = True"

section \<open>Table Materializer\<close>

text \<open>
  The store is reached through \<open>db.Exec\<close> only: \<open>exec\<close> takes a statement and the state
  of the store and gives the text of an error, or the new state.
\<close>

definition CreateTableFromData ::
  "(stmt \<Rightarrow> 'db \<Rightarrow> string + 'db) \<Rightarrow> string \<Rightarrow> gvalue \<Rightarrow> 'db \<Rightarrow> error option \<times> 'db" where
  "CreateTableFromData exec tableName data db =
     (case exec (DropTableIfExists tableName) db of
        Inl err \<Rightarrow> (Some (DropFailed err), db)
      | Inr db1 \<Rightarrow>
          (case exec (createQuery tableName data) db1 of
             Inl err \<Rightarrow> (Some (CreateFailed tableName err), db1)
           | Inr db2 \<Rightarrow> (None, db2)))"

fun bindValue :: "gvalue \<Rightarrow> error + sqlarg" where
  "bindValue (VSlice xs) =
     (if marshalable (VSlice xs) then Inr (JSONText (VSlice xs)) else Inl MarshalComplexFailed)"
| "bindValue (VMap kvs) =
     (if marshalable (VMap kvs) then Inr (JSONText (VMap kvs)) else Inl MarshalComplexFailed)"
| "bindValue v = Inr (Bound v)"

fun recordValues :: "(string \<times> gvalue) list \<Rightarrow> error + sqlarg list" where
  "recordValues [] = Inr []"
| "recordValues ((key, val) # rest) =
     (case bindValue val of
        Inl err \<Rightarrow> Inl err
      | Inr a \<Rightarrow> (case recordValues rest of Inl err \<Rightarrow> Inl err | Inr as \<Rightarrow> Inr (a # as)))"

definition insertSingleRecord ::
  "(stmt \<Rightarrow> 'db \<Rightarrow> string + 'db) \<Rightarrow> string \<Rightarrow> (string \<times> gvalue) list \<Rightarrow> 'db \<Rightarrow> error option \<times> 'db" where
  "insertSingleRecord exec tableName record db =
     (if length record = 0 then (None, db)
      else
        (case recordValues record of
           Inl err \<Rightarrow> (Some err, db)
         | Inr vals \<Rightarrow>
             (case exec (InsertInto tableName (map fst record) vals) db of
                Inl err \<Rightarrow> (Some (ExecError err), db)
              | Inr db' \<Rightarrow> (None, db'))))"

text \<open>The loop over an array whose first element is an object.\<close>

fun insertRecords ::
  "(stmt \<Rightarrow> 'db \<Rightarrow> string + 'db) \<Rightarrow> string \<Rightarrow> gvalue list \<Rightarrow> 'db \<Rightarrow> error option \<times> 'db" where
  "insertRecords exec tableName [] db = (None, db)"
| "insertRecords exec tableName (VMap record # items) db =
     (case insertSingleRecord exec tableName record db of
        (Some err, db') \<Rightarrow> (Some err, db')
      | (None, db') \<Rightarrow> insertRecords exec tableName items db')"
| "insertRecords exec tableName (_ # items) db = insertRecords exec tableName items db"

text \<open>The loop over an array whose first element is not an object.\<close>

fun insertPrimitives ::
  "(stmt \<Rightarrow> 'db \<Rightarrow> string + 'db) \<Rightarrow> string \<Rightarrow> gvalue list \<Rightarrow> 'db \<Rightarrow> error option \<times> 'db" where
  "insertPrimitives exec tableName [] db = (None, db)"
| "insertPrimitives exec tableName (item # items) db =
     (case exec (InsertInto tableName [''value''] [FmtText item]) db of
        Inl err \<Rightarrow> (Some (InsertPrimitiveFailed err), db)
      | Inr db' \<Rightarrow> insertPrimitives exec tableName items db')"

definition insertJSON ::
  "(stmt \<Rightarrow> 'db \<Rightarrow> string + 'db) \<Rightarrow> string \<Rightarrow> gvalue \<Rightarrow> 'db \<Rightarrow> error option \<times> 'db" where
  "insertJSON exec tableName data db =
     (if marshalable data then
        (case exec (InsertInto tableName [''data''] [JSONText data]) db of
           Inl err \<Rightarrow> (Some (InsertJSONFailed err), db)
         | Inr db' \<Rightarrow> (None, db'))
      else (Some MarshalJSONFailed, db))"

fun InsertDataToTable ::
  "(stmt \<Rightarrow> 'db \<Rightarrow> string + 'db) \<Rightarrow> string \<Rightarrow> gvalue \<Rightarrow> 'db \<Rightarrow> error option \<times> 'db" where
  "InsertDataToTable exec tableName (VMap v) db = insertSingleRecord exec tableName v db"
| "InsertDataToTable exec tableName (VSlice []) db = (None, db)"
| "InsertDataToTable exec tableName (VSlice (VMap r # items)) db =
     insertRecords exec tableName (VMap r # items) db"
| "InsertDataToTable exec tableName (VSlice (item # items)) db =
     insertPrimitives exec tableName (item # items) db"
| "InsertDataToTable exec tableName data db = insertJSON exec tableName data db"

section \<open>Source Scanner\<close>

text \<open>
  \<open>strings.HasPrefix\<close>, \<open>strings.HasSuffix\<close> and \<open>strings.Contains\<close> on byte strings.
\<close>

fun HasPrefix :: "string \<Rightarrow> string \<Rightarrow> bool" where
  "HasPrefix s [] = True"
| "HasPrefix [] (p # ps) = False"
| "HasPrefix (c # s) (p # ps) = (c = p \<and> HasPrefix s ps)"

definition HasSuffix :: "string \<Rightarrow> string \<Rightarrow> bool" where
  "HasSuffix s suf = HasPrefix (rev s) (rev suf)"

fun Contains :: "string \<Rightarrow> string \<Rightarrow> bool" where
  "Contains [] substr = (substr = [])"
| "Contains (c # s) substr = (HasPrefix (c # s) substr \<or> Contains s substr)"

text \<open>
  The tree that \<open>filepath.Walk\<close> goes through: a file, a directory with its entries in
  the order of \<open>readDirNames\<close> (sorted by name), or a path whose \<open>lstat\<close> or listing
  fails with the given error.
\<close>

datatype fsnode = File string | Dir string "fsnode list" | Unreadable string string

fun nodeName :: "fsnode \<Rightarrow> string" where
  "nodeName (File name) = name"
| "nodeName (Dir name _) = name"
| "nodeName (Unreadable name _) = name"

fun IsDir :: "fsnode \<Rightarrow> bool" where
  "IsDir (Dir _ _) = True"
| "IsDir _ = False"

text \<open>What a \<open>WalkFunc\<close> returns: \<open>nil\<close>, \<open>filepath.SkipDir\<close> or another error.\<close>

datatype walkret = Continue | SkipDir | Abort string

text \<open>
  The function literal that \<open>FindGoFiles\<close> passes to \<open>filepath.Walk\<close>; \<open>goFiles\<close> is the
  variable it appends to.
\<close>

definition visit ::
  "string \<Rightarrow> string \<Rightarrow> bool \<Rightarrow> string option \<Rightarrow> string list \<Rightarrow> walkret \<times> string list" where
  "visit path name isDir err goFiles =
     (case err of
        Some e \<Rightarrow> (Abort e, goFiles)
      | None \<Rightarrow>
          if Contains path ''vendor/'' \<or> Contains path ''.git/'' \<or> HasSuffix name ''_test.go''
          then (if isDir then (SkipDir, goFiles) else (Continue, goFiles))
          else if HasSuffix name ''.go'' \<and> \<not> isDir then (Continue, goFiles @ [path])
          else (Continue, goFiles))"

text \<open>
  \<open>filepath.Walk\<close> of the Go library, with \<open>visit\<close> as its function: the function is
  called on a path before its entries, a directory for which it returns \<open>SkipDir\<close> is not
  entered, \<open>SkipDir\<close> on a file skips the rest of its directory, any other error ends
  the walk.
\<close>

fun walk :: "string \<Rightarrow> fsnode \<Rightarrow> string list \<Rightarrow> walkret \<times> string list"
  and walkEntries :: "string \<Rightarrow> fsnode list \<Rightarrow> string list \<Rightarrow> walkret \<times> string list" where
  "walk path (File name) goFiles = visit path name False None goFiles"
| "walk path (Unreadable name e) goFiles = visit path name False (Some e) goFiles"
| "walk path (Dir name entries) goFiles =
     (case visit path name True None goFiles of
        (Continue, goFiles') \<Rightarrow> walkEntries path entries goFiles'
      | r \<Rightarrow> r)"
| "walkEntries path [] goFiles = (Continue, goFiles)"
| "walkEntries path (entry # entries) goFiles =
     (case walk (path @ ''/'' @ nodeName entry) entry goFiles of
        (Continue, goFiles') \<Rightarrow> walkEntries path entries goFiles'
      | (SkipDir, goFiles') \<Rightarrow>
          (if IsDir entry then walkEntries path entries goFiles' else (SkipDir, goFiles'))
      | (Abort e, goFiles') \<Rightarrow> (Abort e, goFiles'))"

definition FindGoFiles :: "string \<Rightarrow> fsnode \<Rightarrow> string list \<times> string option" where
  "FindGoFiles repoPath tree =
     (case walk repoPath tree [] of
        (Abort e, goFiles) \<Rightarrow> (goFiles, Some e)
      | (_, goFiles) \<Rightarrow> (goFiles, None))"

section \<open>Execution Engine\<close>

record FunctionInfo =
  Name :: string
  FilePath :: string
  PackageName :: string
  LineNumber :: int
  Parameters :: "string list"
  ReturnTypes :: "string list"
  Comment :: string
  IsExported :: bool

text \<open>
  What the call \<open>pkg.F()\<close> in the generated program does: the program does not build or
  start, the call ends the process with a non-zero status (both with the text of the
  error of \<open>cmd.Output\<close>), the call panics, or it returns a value, given by the result of
  \<open>json.Marshal\<close> on it (\<open>None\<close> when that fails) and by what \<open>fmt.Print\<close> writes for it.
  The called function itself writes nothing to standard output.
\<close>

datatype call = NoBuild string | Exits string | Panics | Returns "string option" string

text \<open>
  The program of \<open>generateMainFile\<close> run by \<open>cmd.Output\<close>: the error of the command, or
  the captured standard output. The deferred function recovers a panic and logs it
  with \<open>log.Printf\<close> (to standard error); \<open>main\<close> then returns, the process ends with
  status 0 and nothing was printed.
\<close>

fun mainProgram :: "call \<Rightarrow> string + string" where
  "mainProgram (NoBuild e) = Inl e"
| "mainProgram (Exits e) = Inl e"
| "mainProgram Panics = Inr []"
| "mainProgram (Returns None printed) = Inr printed"
| "mainProgram (Returns (Some jsonResult) printed) = Inr jsonResult"

text \<open>\<open>strings.TrimSpace\<close> on ASCII text.\<close>

definition isSpace :: "char \<Rightarrow> bool" where
  "isSpace c = (c \<in> set [CHR 0x09, CHR 0x0A, CHR 0x0B, CHR 0x0C, CHR 0x0D, CHR '' ''])"

definition TrimSpace :: "string \<Rightarrow> string" where
  "TrimSpace s = rev (dropWhile isSpace (rev (dropWhile isSpace s)))"

text \<open>
  What the pipeline meets outside its own code: the error of \<open>ioutil.WriteFile\<close> for the
  temporary program of a function (if any), the behaviour of each function's call,
  \<open>json.Unmarshal\<close> into an \<open>interface{}\<close> (\<open>None\<close> when the text is not JSON), the parser
  on a file (the error text, or the exported free functions it declares), the clone
  (the error text, or the temporary directory and the tree of the checkout), the
  connection (the error text, if any) and \<open>db.Exec\<close>.
\<close>

record 'db env =
  WriteFile :: "FunctionInfo \<Rightarrow> string option"
  Call :: "FunctionInfo \<Rightarrow> call"
  Unmarshal :: "string \<Rightarrow> gvalue option"
  ParseFile :: "string \<Rightarrow> string + FunctionInfo list"
  Clone :: "string \<Rightarrow> string + string \<times> fsnode"
  Connect :: "string option"
  Exec :: "stmt \<Rightarrow> 'db \<Rightarrow> string + 'db"

text \<open>
  The state outside: the store, and the names of the functions for which a subprocess
  was started, in order.
\<close>

record 'db world =
  store :: 'db
  spawned :: "string list"

definition ExecuteFunction ::
  "'db env \<Rightarrow> FunctionInfo \<Rightarrow> 'db world \<Rightarrow> (error + gvalue) \<times> 'db world" where
  "ExecuteFunction env function w =
     (if length (Parameters function) > 0 then (Inl (RequiresParameters (Name function)), w)
      else
        (case WriteFile env function of
           Some err \<Rightarrow> (Inl (CreateTempMainFailed err), w)
         | None \<Rightarrow>
             (let w' = w\<lparr>spawned := spawned w @ [Name function]\<rparr> in
              case mainProgram (Call env function) of
                Inl err \<Rightarrow> (Inl (ExecuteFailed (Name function) err), w')
              | Inr output \<Rightarrow>
                  (case Unmarshal env output of
                     None \<Rightarrow> (Inr (VString (TrimSpace output)), w')
                   | Some result \<Rightarrow> (Inr result, w')))))"

section \<open>Batch Orchestrator\<close>

text \<open>
  An entry of \<open>Errors\<close> is the text of one \<open>fmt.Sprintf\<close>; it is kept by the place that
  made it and the arguments of its format.
\<close>

datatype message =
    FailedExtract string error
  | FailedExecute string error
  | FailedCreateTable string error
  | FailedInsert string error

record ProcessingResult =
  ProcessedFunctions :: "FunctionInfo list"
  CreatedTables :: "string list"
  Errors :: "message list"
  ExecutedFunctions :: "string list"

text \<open>The body of the loop over the functions of a file.\<close>

definition processFunction ::
  "'db env \<Rightarrow> FunctionInfo \<Rightarrow> ProcessingResult \<times> 'db world \<Rightarrow> ProcessingResult \<times> 'db world" where
  "processFunction env function rw =
     (let result = (fst rw)\<lparr>ProcessedFunctions := ProcessedFunctions (fst rw) @ [function]\<rparr> in
      case ExecuteFunction env function (snd rw) of
        (Inl err, w) \<Rightarrow>
          (result\<lparr>Errors := Errors result @ [FailedExecute (Name function) err]\<rparr>, w)
      | (Inr data, w) \<Rightarrow>
          if data \<noteq> VNil then
            (case CreateTableFromData (Exec env) (Name function) data (store w) of
               (Some err, db) \<Rightarrow>
                 (result\<lparr>Errors := Errors result @ [FailedCreateTable (Name function) err]\<rparr>,
                  w\<lparr>store := db\<rparr>)
             | (None, db) \<Rightarrow>
                 (case InsertDataToTable (Exec env) (Name function) data db of
                    (Some err, db') \<Rightarrow>
                      (result\<lparr>Errors := Errors result @ [FailedInsert (Name function) err]\<rparr>,
                       w\<lparr>store := db'\<rparr>)
                  | (None, db') \<Rightarrow>
                      (result\<lparr>CreatedTables := CreatedTables result @ [Name function],
                              ExecutedFunctions := ExecutedFunctions result @ [Name function]\<rparr>,
                       w\<lparr>store := db'\<rparr>)))
          else (result, w))"

fun processFunctions ::
  "'db env \<Rightarrow> FunctionInfo list \<Rightarrow> ProcessingResult \<times> 'db world \<Rightarrow> ProcessingResult \<times> 'db world" where
  "processFunctions env [] rw = rw"
| "processFunctions env (function # functions) rw =
     processFunctions env functions (processFunction env function rw)"

text \<open>The body of the loop over the files, and the loop.\<close>

definition processFile ::
  "'db env \<Rightarrow> string \<Rightarrow> ProcessingResult \<times> 'db world \<Rightarrow> ProcessingResult \<times> 'db world" where
  "processFile env filePath rw =
     (case ParseFile env filePath of
        Inl err \<Rightarrow>
          ((fst rw)\<lparr>Errors := Errors (fst rw) @ [FailedExtract filePath (ParseFailed filePath err)]\<rparr>,
           snd rw)
      | Inr functions \<Rightarrow> processFunctions env functions rw)"

fun processFiles ::
  "'db env \<Rightarrow> string list \<Rightarrow> ProcessingResult \<times> 'db world \<Rightarrow> ProcessingResult \<times> 'db world" where
  "processFiles env [] rw = rw"
| "processFiles env (filePath # goFiles) rw = processFiles env goFiles (processFile env filePath rw)"

definition emptyResult :: ProcessingResult where
  "emptyResult = \<lparr>ProcessedFunctions = [], CreatedTables = [], Errors = [], ExecutedFunctions = []\<rparr>"

definition ProcessRepository ::
  "'db env \<Rightarrow> string \<Rightarrow> 'db world \<Rightarrow> (ProcessingResult \<times> error option) \<times> 'db world" where
  "ProcessRepository env repoURL w =
     (case Clone env repoURL of
        Inl err \<Rightarrow> ((emptyResult, Some (CloneFailed err)), w)
      | Inr (tempDir, tree) \<Rightarrow>
          (case Connect env of
             Some err \<Rightarrow> ((emptyResult, Some (ConnectFailed err)), w)
           | None \<Rightarrow>
               (case FindGoFiles (tempDir @ ''/repo'') tree of
                  (goFiles, Some err) \<Rightarrow> ((emptyResult, Some (FindGoFilesFailed err)), w)
                | (goFiles, None) \<Rightarrow>
                    (let rw = processFiles env goFiles (emptyResult, w) in ((fst rw, None), snd rw)))))"

text \<open>
  Lines 520 to 532 of \<open>ProcessRepository\<close> on their own: create the table, then insert
  unless the creation failed.
\<close>

definition materialize ::
  "(stmt \<Rightarrow> 'db \<Rightarrow> string + 'db) \<Rightarrow> string \<Rightarrow> gvalue \<Rightarrow> 'db \<Rightarrow> error option \<times> 'db" where
  "materialize exec tableName data db =
     (case CreateTableFromData exec tableName data db of
        (Some err, db') \<Rightarrow> (Some err, db')
      | (None, db') \<Rightarrow> InsertDataToTable exec tableName data db')"

text \<open>
  The files \<open>ProcessRepository\<close> loops over, and the functions the parser finds in
  them, in order (a file that does not parse has none).
\<close>

definition scanned :: "'db env \<Rightarrow> string \<Rightarrow> string list" where
  "scanned env repoURL =
     (case Clone env repoURL of
        Inl err \<Rightarrow> []
      | Inr (tempDir, tree) \<Rightarrow> fst (FindGoFiles (tempDir @ ''/repo'') tree))"

definition functionsOf :: "'db env \<Rightarrow> string \<Rightarrow> FunctionInfo list" where
  "functionsOf env filePath = (case ParseFile env filePath of Inl err \<Rightarrow> [] | Inr functions \<Rightarrow> functions)"

definition discovered :: "'db env \<Rightarrow> string list \<Rightarrow> FunctionInfo list" where
  "discovered env goFiles = concat (map (functionsOf env) goFiles)"

definition unparsed :: "'db env \<Rightarrow> string list \<Rightarrow> string list" where
  "unparsed env goFiles = filter (\<lambda>filePath. isl (ParseFile env filePath)) goFiles"

text \<open>
  The outcome of \<open>ExecuteFunction\<close> without the state: it does not depend on it.
\<close>

definition outcome :: "'db env \<Rightarrow> FunctionInfo \<Rightarrow> error + gvalue" where
  "outcome env function =
     (if length (Parameters function) > 0 then Inl (RequiresParameters (Name function))
      else
        (case WriteFile env function of
           Some err \<Rightarrow> Inl (CreateTempMainFailed err)
         | None \<Rightarrow>
             (case mainProgram (Call env function) of
                Inl err \<Rightarrow> Inl (ExecuteFailed (Name function) err)
              | Inr output \<Rightarrow>
                  (case Unmarshal env output of
                     None \<Rightarrow> Inr (VString (TrimSpace output))
                   | Some result \<Rightarrow> Inr result))))"

definition returnsNil :: "'db env \<Rightarrow> FunctionInfo \<Rightarrow> bool" where
  "returnsNil env function = (outcome env function = Inr VNil)"

text \<open>The shapes of a decoded value.\<close>

fun isObject :: "gvalue \<Rightarrow> bool" where
  "isObject (VMap _) = True"
| "isObject _ = False"

fun isArray :: "gvalue \<Rightarrow> bool" where
  "isArray (VSlice _) = True"
| "isArray _ = False"

definition isScalar :: "gvalue \<Rightarrow> bool" where
  "isScalar v = (\<not> isObject v \<and> \<not> isArray v \<and> v \<noteq> VNil)"

text \<open>
  The argument bound for a field of a record whose serialization succeeds.
\<close>

fun boundArg :: "gvalue \<Rightarrow> sqlarg" where
  "boundArg (VSlice xs) = JSONText (VSlice xs)"
| "boundArg (VMap kvs) = JSONText (VMap kvs)"
| "boundArg v = Bound v"

section \<open>A relational store\<close>

text \<open>
  A store for the examples and for the comparison of two runs: a table has its column
  definitions and its rows, each row the arguments of one \<open>INSERT\<close> by column name.
  \<open>DROP TABLE IF EXISTS\<close> removes the table if there is one and never fails;
  \<open>CREATE TABLE\<close> fails when the table exists or a column name comes twice; \<open>INSERT\<close>
  fails when the table does not exist or a named column is not one of the table's.
  It is not PostgreSQL: it accepts every name and compares names as they are written
  (PostgreSQL folds an unquoted name to lower case and refuses a reserved word), and it
  checks no argument against the type of its column or against the primary key. What
  is stated of the program on every store is stated with \<open>exec\<close> as a parameter.
\<close>

record table =
  columns :: "(string \<times> string) list"
  rows :: "(string \<times> sqlarg) list list"

type_synonym tables = "string \<Rightarrow> table option"

fun storeExec :: "stmt \<Rightarrow> tables \<Rightarrow> string + tables" where
  "storeExec (DropTableIfExists t) db = Inr (db(t := None))"
| "storeExec (CreateTable t cols) db =
     (if db t \<noteq> None then Inl ''relation already exists''
      else if \<not> distinct (map fst cols) then Inl ''column specified more than once''
      else Inr (db(t := Some \<lparr>columns = cols, rows = []\<rparr>)))"
| "storeExec (InsertInto t cols args) db =
     (case db t of
        None \<Rightarrow> Inl ''relation does not exist''
      | Some tb \<Rightarrow>
          if list_all (\<lambda>c. c \<in> set (map fst (columns tb))) cols
          then Inr (db(t := Some (tb\<lparr>rows := rows tb @ [zip cols args]\<rparr>)))
          else Inl ''column does not exist'')"

section \<open>An example repository\<close>

text \<open>
  One file \<open>data.go\<close> with the given functions. \<open>GetRecord\<close> returns the object
  \<open>{"a":1,"b":"x"}\<close>, \<open>GetMessage\<close> the string \<open>Hello\<close>, \<open>GetNothing\<close> a nil pointer (it
  is marshalled as \<open>null\<close>), \<open>Explode\<close> panics, any other function ends its process with
  status 1. \<open>json.Unmarshal\<close> is given at the outputs of these functions: every JSON
  number becomes a \<open>float64\<close>, and the empty output is not JSON.
\<close>

definition exampleFunction :: "string \<Rightarrow> string list \<Rightarrow> FunctionInfo" where
  "exampleFunction name params =
     \<lparr>Name = name, FilePath = ''/tmp/repo_1/repo/data.go'', PackageName = ''data'',
      LineNumber = 1, Parameters = params, ReturnTypes = [''interface{}''], Comment = [],
      IsExported = True\<rparr>"

definition exampleCall :: "FunctionInfo \<Rightarrow> call" where
  \<open>exampleCall function =
     (if Name function = ''GetRecord'' then Returns (Some ''{"a":1,"b":"x"}'') ''map[a:1 b:x]''
      else if Name function = ''GetNothing'' then Returns (Some ''null'') ''<nil>''
      else if Name function = ''GetMessage'' then Returns (Some ''"Hello"'') ''Hello''
      else if Name function = ''Explode'' then Panics
      else Exits ''exit status 1'')\<close>

definition exampleUnmarshal :: "string \<Rightarrow> gvalue option" where
  \<open>exampleUnmarshal output =
     (if output = ''{"a":1,"b":"x"}''
      then Some (VMap [(''a'', VFloat64 (Finite 1)), (''b'', VString ''x'')])
      else if output = ''null'' then Some VNil
      else if output = ''"Hello"'' then Some (VString ''Hello'')
      else None)\<close>

definition exampleEnv :: "FunctionInfo list \<Rightarrow> tables env" where
  "exampleEnv functions =
     \<lparr>WriteFile = (\<lambda>function. None),
      Call = exampleCall,
      Unmarshal = exampleUnmarshal,
      ParseFile = (\<lambda>filePath. if filePath = ''/tmp/repo_1/repo/data.go'' then Inr functions
                               else Inl ''expected declaration''),
      Clone = (\<lambda>repoURL. Inr (''/tmp/repo_1'', Dir ''repo'' [File ''data.go''])),
      Connect = None,
      Exec = storeExec\<rparr>"

definition emptyWorld :: "tables world" where
  "emptyWorld = \<lparr>store = (\<lambda>t. None), spawned = []\<rparr>"

text \<open>
  What became of a function in the loop body: every stage through the insertion
  succeeded, or one of them failed (an output that decodes to \<open>nil\<close> is neither).
\<close>

definition succeeded :: "'db env \<Rightarrow> FunctionInfo \<Rightarrow> 'db world \<Rightarrow> bool" where
  "succeeded env function w =
     (case outcome env function of
        Inl err \<Rightarrow> False
      | Inr data \<Rightarrow>
          data \<noteq> VNil \<and> fst (materialize (Exec env) (Name function) data (store w)) = None)"

definition failed :: "'db env \<Rightarrow> FunctionInfo \<Rightarrow> 'db world \<Rightarrow> bool" where
  "failed env function w =
     (case outcome env function of
        Inl err \<Rightarrow> True
      | Inr data \<Rightarrow>
          data \<noteq> VNil \<and> fst (materialize (Exec env) (Name function) data (store w)) \<noteq> None)"

text \<open>
  Go leaves the order in which \<open>range\<close> visits a map open, so the same output may be
  met with the entries of an object in another order. The materializer ranges over
  the object it is given or over the objects of the array it is given, so two values
  are the same up to that order when they are equal but for the order of the entries
  of that object or of those objects. The shape of a table is the set of its column
  definitions and the number of its rows.
\<close>

definition sameElement :: "gvalue \<Rightarrow> gvalue \<Rightarrow> bool" where
  "sameElement x y = (case (x, y) of (VMap a, VMap b) \<Rightarrow> mset a = mset b | _ \<Rightarrow> x = y)"

definition sameUpToOrder :: "gvalue \<Rightarrow> gvalue \<Rightarrow> bool" where
  "sameUpToOrder x y =
     (case (x, y) of (VSlice xs, VSlice ys) \<Rightarrow> list_all2 sameElement xs ys | _ \<Rightarrow> sameElement x y)"

definition shape :: "table \<Rightarrow> (string \<times> string) set \<times> nat" where
  "shape tb = (set (columns tb), length (rows tb))"

section \<open>The statements of an insertion\<close>

text \<open>
  Running statements one after the other on any store, up to the first one the store
  refuses: the text of its error (if any), and the store as the accepted statements
  left it.
\<close>

fun execAll :: "(stmt \<Rightarrow> 'db \<Rightarrow> string + 'db) \<Rightarrow> stmt list \<Rightarrow> 'db \<Rightarrow> string option \<times> 'db" where
  "execAll exec [] db = (None, db)"
| "execAll exec (s # ss) db =
     (case exec s db of Inl err \<Rightarrow> (Some err, db) | Inr db' \<Rightarrow> execAll exec ss db')"

text \<open>
  The statements the materializer sends after the creation of the table, when every
  value can be serialized: for an array whose first element is an object, one \<open>INSERT\<close>
  for each object with at least one key, naming the keys of that object and binding
  its values; for an array whose first element is not an object, one \<open>INSERT\<close> into
  \<open>value\<close> for each element, binding its text. For a value that is neither an object nor
  an array, the three statements of its table.
\<close>

fun recordInsert :: "string \<Rightarrow> gvalue \<Rightarrow> stmt list" where
  "recordInsert tableName (VMap record) =
     (if record = [] then []
      else [InsertInto tableName (map fst record) (map (\<lambda>kv. boundArg (snd kv)) record)])"
| "recordInsert tableName _ = []"

definition recordInserts :: "string \<Rightarrow> gvalue list \<Rightarrow> stmt list" where
  "recordInserts tableName items = concat (map (recordInsert tableName) items)"

definition primitiveInserts :: "string \<Rightarrow> gvalue list \<Rightarrow> stmt list" where
  "primitiveInserts tableName items = map (\<lambda>item. InsertInto tableName [''value''] [FmtText item]) items"

definition scalarStatements :: "string \<Rightarrow> gvalue \<Rightarrow> stmt list" where
  "scalarStatements tableName data =
     [DropTableIfExists tableName, CreateTable tableName [idColumn, (''data'', ''JSONB'')],
      InsertInto tableName [''data''] [JSONText data]]"

text \<open>
  Two more stores for the examples: one that accepts every statement and keeps the
  list of the statements it was sent, and the relational store above refusing every
  statement on a table whose name is one of three reserved words of PostgreSQL (the
  code sends the name of the function unquoted). \<open>reservedEnv\<close> is the example repository
  on the latter, every function returning the string \<open>Hello\<close>; \<open>collisionEnv\<close> is a
  repository with the packages \<open>a\<close> and \<open>b\<close>, declaring \<open>GetMessage()\<close> and
  \<open>GetMessage(id string)\<close>.
\<close>

definition recordExec :: "stmt \<Rightarrow> stmt list \<Rightarrow> string + stmt list" where
  "recordExec s sent = Inr (sent @ [s])"

fun stmtTable :: "stmt \<Rightarrow> string" where
  "stmtTable (DropTableIfExists t) = t"
| "stmtTable (CreateTable t _) = t"
| "stmtTable (InsertInto t _ _) = t"

definition reservedExec :: "stmt \<Rightarrow> tables \<Rightarrow> string + tables" where
  "reservedExec s db =
     (if stmtTable s \<in> set [''Default'', ''Order'', ''User''] then Inl ''syntax error''
      else storeExec s db)"

definition reservedEnv :: "tables env" where
  "reservedEnv =
     (exampleEnv [])\<lparr>Call := (\<lambda>function. exampleCall (exampleFunction ''GetMessage'' [])),
                     Exec := reservedExec\<rparr>"

definition collisionEnv :: "tables env" where
  "collisionEnv =
     \<lparr>WriteFile = (\<lambda>function. None),
      Call = exampleCall,
      Unmarshal = exampleUnmarshal,
      ParseFile = (\<lambda>filePath.
         if filePath = ''/tmp/repo_1/repo/a/a.go''
         then Inr [(exampleFunction ''GetMessage'' [])
                     \<lparr>FilePath := ''/tmp/repo_1/repo/a/a.go'', PackageName := ''a''\<rparr>]
         else if filePath = ''/tmp/repo_1/repo/b/b.go''
         then Inr [(exampleFunction ''GetMessage'' [''id string''])
                     \<lparr>FilePath := ''/tmp/repo_1/repo/b/b.go'', PackageName := ''b''\<rparr>]
         else Inl ''expected declaration''),
      Clone = (\<lambda>repoURL. Inr (''/tmp/repo_1'',
                 Dir ''repo'' [Dir ''a'' [File ''a.go''], Dir ''b'' [File ''b.go'']])),
      Connect = None,
      Exec = storeExec\<rparr>"

section \<open>The loop body and the loops\<close>

lemma ExecuteFunction_outcome:
  "fst (ExecuteFunction env f w) = outcome env f"
  by (simp add: ExecuteFunction_def outcome_def Let_def split: option.splits sum.splits)

lemma ExecuteFunction_store:
  "store (snd (ExecuteFunction env f w)) = store w"
  by (simp add: ExecuteFunction_def Let_def split: option.splits sum.splits)

lemma ExecuteFunction_eq:
  "ExecuteFunction env f w = (outcome env f, snd (ExecuteFunction env f w))"
  by (metis ExecuteFunction_outcome prod.collapse)

lemma processFunction_Processed:
  "ProcessedFunctions (fst (processFunction env f rw)) = ProcessedFunctions (fst rw) @ [f]"
  by (simp add: processFunction_def Let_def split: prod.splits sum.splits option.splits)

lemma processFunction_Executed:
  "ExecutedFunctions (fst (processFunction env f rw)) =
     ExecutedFunctions (fst rw) @ (if succeeded env f (snd rw) then [Name f] else [])"
  using ExecuteFunction_outcome[of env f "snd rw"] ExecuteFunction_store[of env f "snd rw"]
  by (auto simp add: processFunction_def succeeded_def materialize_def Let_def split: prod.splits sum.splits option.splits)

lemma processFunction_Created:
  "CreatedTables (fst (processFunction env f rw)) =
     CreatedTables (fst rw) @ (if succeeded env f (snd rw) then [Name f] else [])"
  using ExecuteFunction_outcome[of env f "snd rw"] ExecuteFunction_store[of env f "snd rw"]
  by (auto simp add: processFunction_def succeeded_def materialize_def Let_def split: prod.splits sum.splits option.splits)

lemma processFunction_Errors:
  "length (Errors (fst (processFunction env f rw))) =
     length (Errors (fst rw)) + (if failed env f (snd rw) then 1 else 0)"
  using ExecuteFunction_outcome[of env f "snd rw"] ExecuteFunction_store[of env f "snd rw"]
  by (auto simp add: processFunction_def failed_def materialize_def Let_def split: prod.splits sum.splits option.splits)

lemma three_way:
  "(if succeeded env f w then 1 else 0) + (if failed env f w then 1 else 0)
     + (if returnsNil env f then 1 else 0) = (1::nat)"
  by (auto simp add: succeeded_def failed_def returnsNil_def split: sum.splits)

lemma processFunction_count:
  "length (ExecutedFunctions (fst (processFunction env f rw))) + length (Errors (fst (processFunction env f rw)))
     + (if returnsNil env f then 1 else 0)
   = length (ExecutedFunctions (fst rw)) + length (Errors (fst rw)) + 1"
  using three_way[of env f "snd rw"]
  by (simp add: processFunction_Executed processFunction_Errors split: if_splits)

lemma processFunctions_Processed:
  "ProcessedFunctions (fst (processFunctions env fs rw)) = ProcessedFunctions (fst rw) @ fs"
  by (induction fs arbitrary: rw) (simp_all add: processFunction_Processed)

lemma processFunctions_count:
  "length (ExecutedFunctions (fst (processFunctions env fs rw))) + length (Errors (fst (processFunctions env fs rw)))
     + length (filter (returnsNil env) fs)
   = length (ExecutedFunctions (fst rw)) + length (Errors (fst rw)) + length fs"
proof (induction fs arbitrary: rw)
  case Nil
  show ?case by simp
next
  case (Cons f fs)
  show ?case
    using Cons.IH[of "processFunction env f rw"] processFunction_count[of env f rw]
    by (simp split: if_splits)
qed

lemma processFunctions_lists:
  "CreatedTables (fst rw) = ExecutedFunctions (fst rw) \<Longrightarrow>
   CreatedTables (fst (processFunctions env fs rw)) = ExecutedFunctions (fst (processFunctions env fs rw))"
  by (induction fs arbitrary: rw) (simp_all add: processFunction_Executed processFunction_Created)

lemma processFile_Processed:
  "ProcessedFunctions (fst (processFile env p rw)) = ProcessedFunctions (fst rw) @ functionsOf env p"
  by (simp add: processFile_def functionsOf_def processFunctions_Processed split: sum.splits)

lemma processFile_lists:
  "CreatedTables (fst rw) = ExecutedFunctions (fst rw) \<Longrightarrow>
   CreatedTables (fst (processFile env p rw)) = ExecutedFunctions (fst (processFile env p rw))"
  by (simp add: processFile_def processFunctions_lists split: sum.splits)

lemma processFile_count:
  "length (ExecutedFunctions (fst (processFile env p rw))) + length (Errors (fst (processFile env p rw)))
     + length (filter (returnsNil env) (functionsOf env p))
   = length (ExecutedFunctions (fst rw)) + length (Errors (fst rw)) + length (functionsOf env p)
     + (if isl (ParseFile env p) then 1 else 0)"
  using processFunctions_count[of env _ rw]
  by (simp add: processFile_def functionsOf_def split: sum.splits)

lemma processFiles_Processed:
  "ProcessedFunctions (fst (processFiles env ps rw)) = ProcessedFunctions (fst rw) @ discovered env ps"
  by (induction ps arbitrary: rw) (simp_all add: processFile_Processed discovered_def)

lemma processFiles_lists:
  "CreatedTables (fst rw) = ExecutedFunctions (fst rw) \<Longrightarrow>
   CreatedTables (fst (processFiles env ps rw)) = ExecutedFunctions (fst (processFiles env ps rw))"
  by (induction ps arbitrary: rw) (simp_all add: processFile_lists)

lemma processFiles_count:
  "length (ExecutedFunctions (fst (processFiles env ps rw))) + length (Errors (fst (processFiles env ps rw)))
     + length (filter (returnsNil env) (discovered env ps))
   = length (ExecutedFunctions (fst rw)) + length (Errors (fst rw)) + length (discovered env ps)
     + length (unparsed env ps)"
proof (induction ps arbitrary: rw)
  case Nil
  show ?case by (simp add: discovered_def unparsed_def)
next
  case (Cons p ps)
  show ?case
    using Cons.IH[of "processFile env p rw"] processFile_count[of env p rw]
    by (simp add: discovered_def unparsed_def split: if_splits)
qed

lemma ProcessRepository_ok:
  "snd (fst (ProcessRepository env repoURL w)) = None \<Longrightarrow>
   ProcessRepository env repoURL w =
     ((fst (processFiles env (scanned env repoURL) (emptyResult, w)), None),
      snd (processFiles env (scanned env repoURL) (emptyResult, w)))"
  by (simp add: ProcessRepository_def scanned_def Let_def split: sum.splits prod.splits option.splits)

lemma ProcessRepository_failed:
  "snd (fst (ProcessRepository env repoURL w)) \<noteq> None \<Longrightarrow>
   fst (fst (ProcessRepository env repoURL w)) = emptyResult
   \<and> snd (ProcessRepository env repoURL w) = w"
  by (simp add: ProcessRepository_def scanned_def Let_def split: sum.splits prod.splits option.splits)

lemma succeeded_no_parameters: "succeeded env f w \<Longrightarrow> Parameters f = []"
  by (auto simp add: succeeded_def outcome_def split: sum.splits if_splits)

lemma ExecuteFunction_rejected:
  "Parameters f \<noteq> [] \<Longrightarrow> ExecuteFunction env f w = (Inl (RequiresParameters (Name f)), w)"
  by (simp add: ExecuteFunction_def)

lemma processFunction_rejected:
  "Parameters f \<noteq> [] \<Longrightarrow>
   processFunction env f (r, w) =
     (r\<lparr>ProcessedFunctions := ProcessedFunctions r @ [f],
        Errors := Errors r @ [FailedExecute (Name f) (RequiresParameters (Name f))]\<rparr>, w)"
  by (simp add: processFunction_def ExecuteFunction_rejected Let_def)

lemma ExecuteFunction_spawned:
  "spawned (snd (ExecuteFunction env f w)) =
     spawned w @ (if Parameters f = [] \<and> WriteFile env f = None then [Name f] else [])"
  by (simp add: ExecuteFunction_def Let_def split: sum.splits option.splits)

lemma processFunction_world:
  "spawned (snd (processFunction env f rw)) = spawned (snd (ExecuteFunction env f (snd rw)))"
  by (auto simp add: processFunction_def Let_def split: prod.splits sum.splits option.splits)

lemma processFunction_spawned:
  "spawned (snd (processFunction env f rw)) =
     spawned (snd rw) @ (if Parameters f = [] \<and> WriteFile env f = None then [Name f] else [])"
  by (simp only: processFunction_world ExecuteFunction_spawned)

lemma processFunctions_spawned:
  "spawned (snd (processFunctions env fs rw)) =
     spawned (snd rw) @ map Name (filter (\<lambda>f. Parameters f = [] \<and> WriteFile env f = None) fs)"
  by (induction fs arbitrary: rw) (simp_all add: processFunction_spawned)

lemma processFile_spawned:
  "spawned (snd (processFile env p rw)) =
     spawned (snd rw) @ map Name (filter (\<lambda>f. Parameters f = [] \<and> WriteFile env f = None) (functionsOf env p))"
  by (simp add: processFile_def functionsOf_def processFunctions_spawned split: sum.splits)

lemma processFiles_spawned:
  "spawned (snd (processFiles env ps rw)) =
     spawned (snd rw) @ map Name (filter (\<lambda>f. Parameters f = [] \<and> WriteFile env f = None) (discovered env ps))"
  by (induction ps arbitrary: rw) (simp_all add: processFile_spawned discovered_def)

lemma processFunction_Errors_mono:
  "set (Errors (fst rw)) \<subseteq> set (Errors (fst (processFunction env f rw)))"
  by (auto simp add: processFunction_def Let_def split: prod.splits sum.splits option.splits)

lemma processFunctions_Errors_mono:
  "set (Errors (fst rw)) \<subseteq> set (Errors (fst (processFunctions env fs rw)))"
proof (induction fs arbitrary: rw)
  case Nil
  show ?case by simp
next
  case (Cons f fs)
  show ?case
    using Cons.IH[of "processFunction env f rw"] processFunction_Errors_mono[of rw env f] by auto
qed

lemma processFile_Errors_mono:
  "set (Errors (fst rw)) \<subseteq> set (Errors (fst (processFile env p rw)))"
  using processFunctions_Errors_mono[of rw env]
  by (auto simp add: processFile_def split: sum.splits)

lemma processFiles_Errors_mono:
  "set (Errors (fst rw)) \<subseteq> set (Errors (fst (processFiles env ps rw)))"
proof (induction ps arbitrary: rw)
  case Nil
  show ?case by simp
next
  case (Cons p ps)
  show ?case
    using Cons.IH[of "processFile env p rw"] processFile_Errors_mono[of rw env p] by auto
qed

lemma processFunctions_rejected_recorded:
  "f \<in> set fs \<Longrightarrow> Parameters f \<noteq> [] \<Longrightarrow>
   FailedExecute (Name f) (RequiresParameters (Name f)) \<in> set (Errors (fst (processFunctions env fs rw)))"
proof (induction fs arbitrary: rw)
  case Nil
  then show ?case by simp
next
  case (Cons g fs)
  show ?case
  proof (cases "f = g")
    case True
    have "FailedExecute (Name f) (RequiresParameters (Name f)) \<in> set (Errors (fst (processFunction env f rw)))"
      using processFunction_rejected[OF Cons.prems(2), of env "fst rw" "snd rw"] by simp
    then show ?thesis
      using processFunctions_Errors_mono[of "processFunction env f rw" env fs] True by auto
  next
    case False
    then have "f \<in> set fs" using Cons.prems(1) by simp
    then show ?thesis using Cons.IH[OF _ Cons.prems(2)] by simp
  qed
qed

lemma processFiles_rejected_recorded:
  "f \<in> set (discovered env ps) \<Longrightarrow> Parameters f \<noteq> [] \<Longrightarrow>
   FailedExecute (Name f) (RequiresParameters (Name f)) \<in> set (Errors (fst (processFiles env ps rw)))"
proof (induction ps arbitrary: rw)
  case Nil
  then show ?case by (simp add: discovered_def)
next
  case (Cons p ps)
  show ?case
  proof (cases "f \<in> set (functionsOf env p)")
    case True
    then obtain fs where fs: "ParseFile env p = Inr fs" "f \<in> set fs"
      by (cases "ParseFile env p") (auto simp add: functionsOf_def)
    have "FailedExecute (Name f) (RequiresParameters (Name f)) \<in> set (Errors (fst (processFile env p rw)))"
      using processFunctions_rejected_recorded[OF fs(2) Cons.prems(2)] fs(1)
      by (simp add: processFile_def)
    then show ?thesis
      using processFiles_Errors_mono[of "processFile env p rw" env ps] by auto
  next
    case False
    then have "f \<in> set (discovered env ps)" using Cons.prems(1) by (simp add: discovered_def)
    then show ?thesis using Cons.IH[OF _ Cons.prems(2)] by simp
  qed
qed

lemma processFunctions_Executed_subseq:
  "\<exists>ys. ExecutedFunctions (fst (processFunctions env fs rw)) = ExecutedFunctions (fst rw) @ ys
        \<and> subseq ys (map Name (filter (\<lambda>f. Parameters f = []) fs))"
proof (induction fs arbitrary: rw)
  case Nil
  show ?case by simp
next
  case (Cons f fs)
  obtain ys where ys: "ExecutedFunctions (fst (processFunctions env fs (processFunction env f rw))) =
      ExecutedFunctions (fst (processFunction env f rw)) @ ys"
      "subseq ys (map Name (filter (\<lambda>f. Parameters f = []) fs))"
    using Cons.IH[of "processFunction env f rw"] by blast
  show ?case
  proof (cases "succeeded env f (snd rw)")
    case True
    then have "Parameters f = []" by (rule succeeded_no_parameters)
    then show ?thesis using ys True by (simp add: processFunction_Executed)
  next
    case False
    then show ?thesis using ys by (auto simp add: processFunction_Executed)
  qed
qed

lemma processFile_Executed_subseq:
  "\<exists>ys. ExecutedFunctions (fst (processFile env p rw)) = ExecutedFunctions (fst rw) @ ys
        \<and> subseq ys (map Name (filter (\<lambda>f. Parameters f = []) (functionsOf env p)))"
  using processFunctions_Executed_subseq[of env _ rw]
  by (auto simp add: processFile_def functionsOf_def split: sum.splits)

lemma processFiles_Executed_subseq:
  "\<exists>ys. ExecutedFunctions (fst (processFiles env ps rw)) = ExecutedFunctions (fst rw) @ ys
        \<and> subseq ys (map Name (filter (\<lambda>f. Parameters f = []) (discovered env ps)))"
proof (induction ps arbitrary: rw)
  case Nil
  show ?case by (simp add: discovered_def)
next
  case (Cons p ps)
  obtain ys where ys: "ExecutedFunctions (fst (processFile env p rw)) = ExecutedFunctions (fst rw) @ ys"
      "subseq ys (map Name (filter (\<lambda>f. Parameters f = []) (functionsOf env p)))"
    using processFile_Executed_subseq[of env p rw] by blast
  obtain zs where zs: "ExecutedFunctions (fst (processFiles env ps (processFile env p rw))) =
      ExecutedFunctions (fst (processFile env p rw)) @ zs"
      "subseq zs (map Name (filter (\<lambda>f. Parameters f = []) (discovered env ps)))"
    using Cons.IH[of "processFile env p rw"] by blast
  have "subseq (ys @ zs) (map Name (filter (\<lambda>f. Parameters f = []) (discovered env (p # ps))))"
    using ys(2) zs(2) by (simp add: discovered_def list_emb_append_mono)
  then show ?case using ys(1) zs(1) by simp
qed

lemma subseq_member: "subseq xs ys \<Longrightarrow> x \<in> set xs \<Longrightarrow> x \<in> set ys"
  using list_emb_set[of "(=)" xs ys x] by auto

section \<open>The example repository\<close>

lemma example_scanned: "scanned (exampleEnv fs) repoURL = [''/tmp/repo_1/repo/data.go'']"
  by (simp add: scanned_def exampleEnv_def FindGoFiles_def visit_def HasSuffix_def)

lemma example_discovered: "discovered (exampleEnv fs) [''/tmp/repo_1/repo/data.go''] = fs"
  by (simp add: discovered_def functionsOf_def exampleEnv_def)

lemma example_unparsed: "unparsed (exampleEnv fs) [''/tmp/repo_1/repo/data.go''] = []"
  by (simp add: unparsed_def exampleEnv_def)

lemma example_ProcessRepository:
  "ProcessRepository (exampleEnv fs) repoURL w =
     ((fst (processFunctions (exampleEnv fs) fs (emptyResult, w)), None),
      snd (processFunctions (exampleEnv fs) fs (emptyResult, w)))"
  by (simp add: ProcessRepository_def exampleEnv_def FindGoFiles_def visit_def HasSuffix_def
      processFile_def Let_def)

lemma example_outcome_GetMessage:
  "outcome (exampleEnv fs) (exampleFunction ''GetMessage'' []) = Inr (VString ''Hello'')"
  by (simp add: outcome_def exampleEnv_def exampleFunction_def exampleCall_def exampleUnmarshal_def)

lemma example_outcome_GetNothing:
  "outcome (exampleEnv fs) (exampleFunction ''GetNothing'' []) = Inr VNil"
  by (simp add: outcome_def exampleEnv_def exampleFunction_def exampleCall_def exampleUnmarshal_def)

lemma example_Exec: "(exampleEnv fs)\<lparr>Exec := storeExec\<rparr> = exampleEnv fs"
  by (simp add: exampleEnv_def)

lemma reserved_outcome:
  "outcome reservedEnv (exampleFunction ''Default'' []) = Inr (VString ''Hello'')"
  by (simp add: outcome_def reservedEnv_def exampleEnv_def exampleFunction_def exampleCall_def
      exampleUnmarshal_def)

section \<open>The materializer on the relational store\<close>

lemma storeExec_insert_agree:
  assumes "db1 t = db2 t"
  shows "(\<exists>e. storeExec (InsertInto t c a) db1 = Inl e \<and> storeExec (InsertInto t c a) db2 = Inl e)
       \<or> (\<exists>d1 d2. storeExec (InsertInto t c a) db1 = Inr d1 \<and> storeExec (InsertInto t c a) db2 = Inr d2
             \<and> d1 t = d2 t)"
  using assms by (cases "db2 t") auto

lemma insertSingleRecord_agree:
  assumes "db1 t = db2 t"
  shows "fst (insertSingleRecord storeExec t r db1) = fst (insertSingleRecord storeExec t r db2)
   \<and> snd (insertSingleRecord storeExec t r db1) t = snd (insertSingleRecord storeExec t r db2) t"
proof (cases "recordValues r")
  case (Inl e)
  then show ?thesis using assms by (simp add: insertSingleRecord_def)
next
  case (Inr vals)
  show ?thesis
    using storeExec_insert_agree[of db1 t db2 "map fst r" vals] Inr assms
    by (auto simp add: insertSingleRecord_def)
qed

lemma insertRecords_agree:
  "db1 t = db2 t \<Longrightarrow>
   fst (insertRecords storeExec t items db1) = fst (insertRecords storeExec t items db2)
   \<and> snd (insertRecords storeExec t items db1) t = snd (insertRecords storeExec t items db2) t"
proof (induction items arbitrary: db1 db2)
  case Nil
  then show ?case by simp
next
  case (Cons item items)
  show ?case
  proof (cases item)
    case (VMap r)
    obtain e1 d1 where s1: "insertSingleRecord storeExec t r db1 = (e1, d1)"
      by (cases "insertSingleRecord storeExec t r db1")
    obtain e2 d2 where s2: "insertSingleRecord storeExec t r db2 = (e2, d2)"
      by (cases "insertSingleRecord storeExec t r db2")
    have ag: "e1 = e2 \<and> d1 t = d2 t"
      using insertSingleRecord_agree[of db1 t db2 r] Cons.prems s1 s2 by simp
    then have "d1 t = d2 t" by simp
    then show ?thesis
      using Cons.IH[of d1 d2] ag s1 s2 VMap by (cases e1) auto
  qed (use Cons.IH[of db1 db2] Cons.prems in simp_all)
qed

lemma insertPrimitives_agree:
  "db1 t = db2 t \<Longrightarrow>
   fst (insertPrimitives storeExec t items db1) = fst (insertPrimitives storeExec t items db2)
   \<and> snd (insertPrimitives storeExec t items db1) t = snd (insertPrimitives storeExec t items db2) t"
proof (induction items arbitrary: db1 db2)
  case Nil
  then show ?case by simp
next
  case (Cons item items)
  from storeExec_insert_agree[of db1 t db2 "[''value'']" "[FmtText item]"] Cons.prems
  have "(\<exists>e. storeExec (InsertInto t [''value''] [FmtText item]) db1 = Inl e
            \<and> storeExec (InsertInto t [''value''] [FmtText item]) db2 = Inl e)
       \<or> (\<exists>d1 d2. storeExec (InsertInto t [''value''] [FmtText item]) db1 = Inr d1
            \<and> storeExec (InsertInto t [''value''] [FmtText item]) db2 = Inr d2 \<and> d1 t = d2 t)"
    by blast
  then show ?case
  proof (elim disjE exE conjE)
    fix e
    assume "storeExec (InsertInto t [''value''] [FmtText item]) db1 = Inl e"
      "storeExec (InsertInto t [''value''] [FmtText item]) db2 = Inl e"
    then show ?thesis using Cons.prems by simp
  next
    fix d1 d2
    assume a: "storeExec (InsertInto t [''value''] [FmtText item]) db1 = Inr d1"
      "storeExec (InsertInto t [''value''] [FmtText item]) db2 = Inr d2" "d1 t = d2 t"
    show ?thesis using Cons.IH[of d1 d2] a by simp
  qed
qed

lemma insertJSON_agree:
  assumes "db1 t = db2 t"
  shows "fst (insertJSON storeExec t data db1) = fst (insertJSON storeExec t data db2)
   \<and> snd (insertJSON storeExec t data db1) t = snd (insertJSON storeExec t data db2) t"
  using storeExec_insert_agree[of db1 t db2 "[''data'']" "[JSONText data]"] assms
  by (auto simp add: insertJSON_def)

lemma InsertDataToTable_agree:
  assumes "db1 t = db2 t"
  shows "fst (InsertDataToTable storeExec t data db1) = fst (InsertDataToTable storeExec t data db2)
   \<and> snd (InsertDataToTable storeExec t data db1) t = snd (InsertDataToTable storeExec t data db2) t"
proof (cases data)
  case (VSlice xs)
  show ?thesis
  proof (cases xs)
    case Nil
    then show ?thesis using VSlice assms by simp
  next
    case (Cons x xs')
    show ?thesis
      using VSlice Cons insertRecords_agree[of db1 t db2 xs] insertPrimitives_agree[of db1 t db2 xs] assms
      by (cases x) simp_all
  qed
next
  case (VMap r)
  then show ?thesis using insertSingleRecord_agree[of db1 t db2 r] assms by simp
qed (use insertJSON_agree[of db1 t db2 data] assms in simp_all)

lemma CreateTableFromData_any:
  "fst (CreateTableFromData storeExec t data db1) = fst (CreateTableFromData storeExec t data db2)
   \<and> snd (CreateTableFromData storeExec t data db1) t = snd (CreateTableFromData storeExec t data db2) t"
proof -
  obtain cols where "createQuery t data = CreateTable t cols"
    by (induction t data rule: createQuery.induct) simp_all
  then show ?thesis by (simp add: CreateTableFromData_def)
qed

lemma materialize_any:
  "fst (materialize storeExec t data db1) = fst (materialize storeExec t data db2)
   \<and> snd (materialize storeExec t data db1) t = snd (materialize storeExec t data db2) t"
proof -
  obtain e1 d1 where c1: "CreateTableFromData storeExec t data db1 = (e1, d1)"
    by (cases "CreateTableFromData storeExec t data db1")
  obtain e2 d2 where c2: "CreateTableFromData storeExec t data db2 = (e2, d2)"
    by (cases "CreateTableFromData storeExec t data db2")
  have ag: "e1 = e2 \<and> d1 t = d2 t"
    using CreateTableFromData_any[of t data db1 db2] c1 c2 by simp
  show ?thesis
    using ag c1 c2 InsertDataToTable_agree[of d1 t d2 data]
    by (cases e1) (auto simp add: materialize_def)
qed

lemma processFunction_store:
  "store (snd (processFunction env f rw)) =
     (case outcome env f of
        Inl err \<Rightarrow> store (snd rw)
      | Inr data \<Rightarrow>
          if data \<noteq> VNil then snd (materialize (Exec env) (Name f) data (store (snd rw)))
          else store (snd rw))"
  using ExecuteFunction_outcome[of env f "snd rw"] ExecuteFunction_store[of env f "snd rw"]
  by (auto simp add: processFunction_def materialize_def Let_def split: prod.splits sum.splits option.splits)

lemma processFunction_Errors_same:
  "\<not> failed env f (snd rw) \<Longrightarrow> Errors (fst (processFunction env f rw)) = Errors (fst rw)"
  using ExecuteFunction_outcome[of env f "snd rw"] ExecuteFunction_store[of env f "snd rw"]
  by (auto simp add: processFunction_def failed_def materialize_def Let_def split: prod.splits sum.splits option.splits)

lemma outcome_Exec: "outcome (env\<lparr>Exec := x\<rparr>) f = outcome env f"
  by (simp add: outcome_def split: option.splits sum.splits)

section \<open>The order of the entries of an object\<close>

lemma sameElement_VMap: "sameElement (VMap a) y \<longleftrightarrow> (\<exists>b. y = VMap b \<and> mset a = mset b)"
  by (cases y) (auto simp add: sameElement_def)

lemma sameElement_other: "\<not> isObject x \<Longrightarrow> sameElement x y \<longleftrightarrow> x = y"
  by (cases x; cases y) (auto simp add: sameElement_def)

lemma sameElement_refl: "sameElement x x"
  by (cases x) (auto simp add: sameElement_def)

lemma sameUpToOrder_VSlice:
  "sameUpToOrder (VSlice xs) y \<longleftrightarrow> (\<exists>ys. y = VSlice ys \<and> list_all2 sameElement xs ys)"
  by (cases y) (auto simp add: sameUpToOrder_def sameElement_def)

lemma sameUpToOrder_other: "\<not> isArray x \<Longrightarrow> sameUpToOrder x y \<longleftrightarrow> sameElement x y"
  by (cases x; cases y) (auto simp add: sameUpToOrder_def sameElement_def)

lemma isl_recordValues:
  "isl (recordValues r) \<longleftrightarrow> (\<exists>kv \<in> set r. isl (bindValue (snd kv)))"
  by (induction r) (auto split: sum.splits)

lemma recordValues_error: "recordValues r = Inl e \<Longrightarrow> e = MarshalComplexFailed"
proof (induction r arbitrary: e)
  case Nil
  then show ?case by simp
next
  case (Cons kv r)
  obtain k v where kv: "kv = (k, v)" by (cases kv)
  have b: "bindValue v = Inl e' \<Longrightarrow> e' = MarshalComplexFailed" for e'
    by (cases v) (auto split: if_splits)
  show ?case using Cons kv b by (auto split: sum.splits)
qed

lemma length_recordValues: "recordValues r = Inr vals \<Longrightarrow> length vals = length r"
  by (induction r arbitrary: vals) (auto split: sum.splits)

lemma recordValues_reordered:
  assumes "mset a = mset b"
  shows "(\<exists>e. recordValues a = Inl e \<and> recordValues b = Inl e)
       \<or> (\<exists>va vb. recordValues a = Inr va \<and> recordValues b = Inr vb)"
proof -
  have "set a = set b" using assms by (rule mset_eq_setD)
  then have i: "isl (recordValues a) = isl (recordValues b)" by (simp add: isl_recordValues)
  show ?thesis
  proof (cases "recordValues a")
    case (Inl e)
    then obtain e' where e': "recordValues b = Inl e'" using i by (cases "recordValues b") auto
    show ?thesis using Inl e' recordValues_error[of a e] recordValues_error[of b e'] by simp
  next
    case (Inr va)
    then obtain vb where "recordValues b = Inr vb" using i by (cases "recordValues b") auto
    then show ?thesis using Inr by simp
  qed
qed

lemma insertSingleRecord_reordered:
  assumes "mset a = mset b" and "rel_option (\<lambda>x y. shape x = shape y) (db1 t) (db2 t)"
  shows "fst (insertSingleRecord storeExec t a db1) = fst (insertSingleRecord storeExec t b db2)
   \<and> rel_option (\<lambda>x y. shape x = shape y) (snd (insertSingleRecord storeExec t a db1) t)
        (snd (insertSingleRecord storeExec t b db2) t)"
proof -
  have l: "length a = length b" using assms(1) by (rule mset_eq_length)
  have "mset (map fst a) = mset (map fst b)" using assms(1) by simp
  then have s: "set (map fst a) = set (map fst b)" by (rule mset_eq_setD)
  from recordValues_reordered[OF assms(1)]
  show ?thesis
  proof (elim disjE exE conjE)
    fix e assume "recordValues a = Inl e" "recordValues b = Inl e"
    then show ?thesis using assms(2) l by (simp add: insertSingleRecord_def)
  next
    fix va vb assume v: "recordValues a = Inr va" "recordValues b = Inr vb"
    show ?thesis
    proof (cases "db1 t")
      case None
      then have "db2 t = None" using assms(2) by (cases "db2 t") auto
      then show ?thesis using None v l by (simp add: insertSingleRecord_def)
    next
      case (Some tb1)
      then obtain tb2 where tb2: "db2 t = Some tb2" "shape tb1 = shape tb2"
        using assms(2) by (cases "db2 t") auto
      have c: "set (map fst (columns tb1)) = set (map fst (columns tb2))"
        using tb2(2) by (simp add: shape_def)
      have m: "list_all (\<lambda>c. c \<in> set (map fst (columns tb1))) (map fst a)
          = list_all (\<lambda>c. c \<in> set (map fst (columns tb2))) (map fst b)"
        unfolding list_all_iff c s by (rule refl)
      show ?thesis
        using Some tb2 v l m assms(2) by (auto simp add: insertSingleRecord_def shape_def)
    qed
  qed
qed

lemma insertRecords_reordered:
  "list_all2 sameElement xs ys \<Longrightarrow> rel_option (\<lambda>x y. shape x = shape y) (db1 t) (db2 t) \<Longrightarrow>
   fst (insertRecords storeExec t xs db1) = fst (insertRecords storeExec t ys db2)
   \<and> rel_option (\<lambda>x y. shape x = shape y) (snd (insertRecords storeExec t xs db1) t)
        (snd (insertRecords storeExec t ys db2) t)"
proof (induction xs ys arbitrary: db1 db2 rule: list_all2_induct)
  case Nil
  then show ?case by simp
next
  case (Cons x xs y ys)
  show ?case
  proof (cases x)
    case (VMap a)
    then obtain b where b: "y = VMap b" "mset a = mset b"
      using Cons.hyps(1) by (auto simp add: sameElement_VMap)
    obtain e1 d1 where s1: "insertSingleRecord storeExec t a db1 = (e1, d1)"
      by (cases "insertSingleRecord storeExec t a db1")
    obtain e2 d2 where s2: "insertSingleRecord storeExec t b db2 = (e2, d2)"
      by (cases "insertSingleRecord storeExec t b db2")
    have ag: "e1 = e2 \<and> rel_option (\<lambda>x y. shape x = shape y) (d1 t) (d2 t)"
      using insertSingleRecord_reordered[of a b db1 t db2] b(2) Cons.prems s1 s2 by simp
    show ?thesis
    proof (cases e1)
      case None
      then show ?thesis using Cons.IH[of d1 d2] ag s1 s2 VMap b(1) by auto
    next
      case (Some err)
      then show ?thesis using ag s1 s2 VMap b(1) by auto
    qed
  next
    case VNil
    then have "y = x" using Cons.hyps(1) by (simp add: sameElement_other)
    then show ?thesis using Cons.IH[of db1 db2] Cons.prems VNil by simp
  next
    case (VInt n)
    then have "y = x" using Cons.hyps(1) by (simp add: sameElement_other)
    then show ?thesis using Cons.IH[of db1 db2] Cons.prems VInt by simp
  next
    case (VInt32 n)
    then have "y = x" using Cons.hyps(1) by (simp add: sameElement_other)
    then show ?thesis using Cons.IH[of db1 db2] Cons.prems VInt32 by simp
  next
    case (VInt64 n)
    then have "y = x" using Cons.hyps(1) by (simp add: sameElement_other)
    then show ?thesis using Cons.IH[of db1 db2] Cons.prems VInt64 by simp
  next
    case (VFloat32 n)
    then have "y = x" using Cons.hyps(1) by (simp add: sameElement_other)
    then show ?thesis using Cons.IH[of db1 db2] Cons.prems VFloat32 by simp
  next
    case (VFloat64 n)
    then have "y = x" using Cons.hyps(1) by (simp add: sameElement_other)
    then show ?thesis using Cons.IH[of db1 db2] Cons.prems VFloat64 by simp
  next
    case (VBool n)
    then have "y = x" using Cons.hyps(1) by (simp add: sameElement_other)
    then show ?thesis using Cons.IH[of db1 db2] Cons.prems VBool by simp
  next
    case (VString n)
    then have "y = x" using Cons.hyps(1) by (simp add: sameElement_other)
    then show ?thesis using Cons.IH[of db1 db2] Cons.prems VString by simp
  next
    case (VSlice n)
    then have "y = x" using Cons.hyps(1) by (simp add: sameElement_other)
    then show ?thesis using Cons.IH[of db1 db2] Cons.prems VSlice by simp
  qed
qed

lemma storeExec_insert_shape:
  assumes "rel_option (\<lambda>x y. shape x = shape y) (db1 t) (db2 t)"
  shows "(\<exists>e. storeExec (InsertInto t c a1) db1 = Inl e \<and> storeExec (InsertInto t c a2) db2 = Inl e)
       \<or> (\<exists>d1 d2. storeExec (InsertInto t c a1) db1 = Inr d1 \<and> storeExec (InsertInto t c a2) db2 = Inr d2
             \<and> rel_option (\<lambda>x y. shape x = shape y) (d1 t) (d2 t))"
proof (cases "db1 t")
  case None
  then have "db2 t = None" using assms by (cases "db2 t") auto
  then show ?thesis using None by simp
next
  case (Some tb1)
  then obtain tb2 where tb2: "db2 t = Some tb2" "shape tb1 = shape tb2"
    using assms by (cases "db2 t") auto
  have "set (map fst (columns tb1)) = set (map fst (columns tb2))"
    using tb2(2) by (simp add: shape_def)
  then show ?thesis using Some tb2 by (auto simp add: shape_def)
qed

lemma insertPrimitives_reordered:
  "length xs = length ys \<Longrightarrow> rel_option (\<lambda>x y. shape x = shape y) (db1 t) (db2 t) \<Longrightarrow>
   fst (insertPrimitives storeExec t xs db1) = fst (insertPrimitives storeExec t ys db2)
   \<and> rel_option (\<lambda>x y. shape x = shape y) (snd (insertPrimitives storeExec t xs db1) t)
        (snd (insertPrimitives storeExec t ys db2) t)"
proof (induction xs ys arbitrary: db1 db2 rule: list_induct2)
  case Nil
  then show ?case by simp
next
  case (Cons x xs y ys)
  from storeExec_insert_shape[of db1 t db2 "[''value'']" "[FmtText x]" "[FmtText y]"] Cons.prems
  have "(\<exists>e. storeExec (InsertInto t [''value''] [FmtText x]) db1 = Inl e
            \<and> storeExec (InsertInto t [''value''] [FmtText y]) db2 = Inl e)
       \<or> (\<exists>d1 d2. storeExec (InsertInto t [''value''] [FmtText x]) db1 = Inr d1
            \<and> storeExec (InsertInto t [''value''] [FmtText y]) db2 = Inr d2
            \<and> rel_option (\<lambda>x y. shape x = shape y) (d1 t) (d2 t))"
    by blast
  then show ?case
  proof (elim disjE exE conjE)
    fix e
    assume "storeExec (InsertInto t [''value''] [FmtText x]) db1 = Inl e"
      "storeExec (InsertInto t [''value''] [FmtText y]) db2 = Inl e"
    then show ?thesis using Cons.prems by simp
  next
    fix d1 d2
    assume a: "storeExec (InsertInto t [''value''] [FmtText x]) db1 = Inr d1"
      "storeExec (InsertInto t [''value''] [FmtText y]) db2 = Inr d2"
      "rel_option (\<lambda>x y. shape x = shape y) (d1 t) (d2 t)"
    show ?thesis using Cons.IH[of d1 d2] a by simp
  qed
qed

lemma createQuery_reordered:
  assumes "sameUpToOrder x y"
  shows "\<exists>c1 c2. createQuery t x = CreateTable t c1 \<and> createQuery t y = CreateTable t c2
           \<and> mset c1 = mset c2"
proof (cases x)
  case (VMap a)
  then obtain b where "y = VMap b" "mset a = mset b"
    using assms by (auto simp add: sameUpToOrder_other sameElement_VMap)
  then show ?thesis using VMap by (simp add: dataColumns_def)
next
  case (VSlice xs)
  then obtain ys where ys: "y = VSlice ys" "list_all2 sameElement xs ys"
    using assms by (auto simp add: sameUpToOrder_VSlice)
  show ?thesis
  proof (cases xs)
    case Nil
    then show ?thesis using VSlice ys by simp
  next
    case (Cons x1 xs1)
    then obtain y1 ys1 where y1: "ys = y1 # ys1" "sameElement x1 y1"
      using ys(2) by (auto simp add: list_all2_Cons1)
    show ?thesis
    proof (cases "isObject x1")
      case True
      then obtain a where a: "x1 = VMap a" by (cases x1) auto
      then obtain b where "y1 = VMap b" "mset a = mset b"
        using y1(2) by (auto simp add: sameElement_VMap)
      then show ?thesis using VSlice ys(1) Cons y1(1) a by (simp add: dataColumns_def)
    next
      case False
      then have "y1 = x1" using y1(2) by (simp add: sameElement_other)
      then show ?thesis using VSlice ys(1) Cons y1(1) False by (cases x1) simp_all
    qed
  qed
qed (use assms in \<open>auto simp add: sameUpToOrder_other sameElement_other\<close>)

lemma CreateTableFromData_reordered:
  assumes "sameUpToOrder x y"
  shows "fst (CreateTableFromData storeExec t x db1) = fst (CreateTableFromData storeExec t y db2)
   \<and> rel_option (\<lambda>x y. shape x = shape y) (snd (CreateTableFromData storeExec t x db1) t)
        (snd (CreateTableFromData storeExec t y db2) t)"
proof -
  obtain c1 c2 where c: "createQuery t x = CreateTable t c1" "createQuery t y = CreateTable t c2"
      "mset c1 = mset c2"
    using createQuery_reordered[OF assms, of t] by blast
  have "mset (map fst c1) = mset (map fst c2)" using c(3) by simp
  then have d: "distinct (map fst c1) = distinct (map fst c2)" by (rule mset_eq_imp_distinct_iff)
  have s: "set c1 = set c2" using c(3) by (rule mset_eq_setD)
  show ?thesis using c(1,2) d s by (simp add: CreateTableFromData_def shape_def)
qed

lemma insertJSON_shape:
  assumes "rel_option (\<lambda>x y. shape x = shape y) (db1 t) (db2 t)"
  shows "fst (insertJSON storeExec t data db1) = fst (insertJSON storeExec t data db2)
   \<and> rel_option (\<lambda>x y. shape x = shape y) (snd (insertJSON storeExec t data db1) t)
        (snd (insertJSON storeExec t data db2) t)"
  using storeExec_insert_shape[of db1 t db2 "[''data'']" "[JSONText data]" "[JSONText data]"] assms
  by (auto simp add: insertJSON_def)

lemma InsertDataToTable_reordered:
  assumes "sameUpToOrder x y" and "rel_option (\<lambda>x y. shape x = shape y) (db1 t) (db2 t)"
  shows "fst (InsertDataToTable storeExec t x db1) = fst (InsertDataToTable storeExec t y db2)
   \<and> rel_option (\<lambda>x y. shape x = shape y) (snd (InsertDataToTable storeExec t x db1) t)
        (snd (InsertDataToTable storeExec t y db2) t)"
proof (cases x)
  case (VMap a)
  then obtain b where b: "y = VMap b" "mset a = mset b"
    using assms(1) by (auto simp add: sameUpToOrder_other sameElement_VMap)
  show ?thesis
    using insertSingleRecord_reordered[of a b db1 t db2] b assms(2) VMap by simp
next
  case (VSlice xs)
  then obtain ys where ys: "y = VSlice ys" "list_all2 sameElement xs ys"
    using assms(1) by (auto simp add: sameUpToOrder_VSlice)
  show ?thesis
  proof (cases xs)
    case Nil
    then show ?thesis using VSlice ys assms(2) by simp
  next
    case (Cons x1 xs1)
    then obtain y1 ys1 where y1: "ys = y1 # ys1" "sameElement x1 y1"
      using ys(2) by (auto simp add: list_all2_Cons1)
    show ?thesis
    proof (cases "isObject x1")
      case True
      then obtain a where a: "x1 = VMap a" by (cases x1) auto
      then obtain b where b: "y1 = VMap b"
        using y1(2) by (auto simp add: sameElement_VMap)
      show ?thesis
        using insertRecords_reordered[of xs ys db1 t db2] ys(2) assms(2)
        unfolding VSlice ys(1) Cons y1(1) a b by simp
    next
      case False
      then have e: "y1 = x1" using y1(2) by (simp add: sameElement_other)
      have l: "length xs = length ys" using ys(2) by (rule list_all2_lengthD)
      have i1: "InsertDataToTable storeExec t (VSlice (x1 # xs1)) db1 = insertPrimitives storeExec t (x1 # xs1) db1"
        using False by (cases x1) simp_all
      have i2: "InsertDataToTable storeExec t (VSlice (x1 # ys1)) db2 = insertPrimitives storeExec t (x1 # ys1) db2"
        using False by (cases x1) simp_all
      show ?thesis
        using insertPrimitives_reordered[of xs ys db1 t db2] l assms(2)
        unfolding VSlice ys(1) Cons y1(1) e i1 i2 by simp
    qed
  qed
next
  case VNil
  then have "y = x" using assms(1) by (simp add: sameUpToOrder_other sameElement_other)
  then show ?thesis using insertJSON_shape[of db1 t db2 x] assms(2) VNil by simp
next
  case (VInt n)
  then have "y = x" using assms(1) by (simp add: sameUpToOrder_other sameElement_other)
  then show ?thesis using insertJSON_shape[of db1 t db2 x] assms(2) VInt by simp
next
  case (VInt32 n)
  then have "y = x" using assms(1) by (simp add: sameUpToOrder_other sameElement_other)
  then show ?thesis using insertJSON_shape[of db1 t db2 x] assms(2) VInt32 by simp
next
  case (VInt64 n)
  then have "y = x" using assms(1) by (simp add: sameUpToOrder_other sameElement_other)
  then show ?thesis using insertJSON_shape[of db1 t db2 x] assms(2) VInt64 by simp
next
  case (VFloat32 n)
  then have "y = x" using assms(1) by (simp add: sameUpToOrder_other sameElement_other)
  then show ?thesis using insertJSON_shape[of db1 t db2 x] assms(2) VFloat32 by simp
next
  case (VFloat64 n)
  then have "y = x" using assms(1) by (simp add: sameUpToOrder_other sameElement_other)
  then show ?thesis using insertJSON_shape[of db1 t db2 x] assms(2) VFloat64 by simp
next
  case (VBool n)
  then have "y = x" using assms(1) by (simp add: sameUpToOrder_other sameElement_other)
  then show ?thesis using insertJSON_shape[of db1 t db2 x] assms(2) VBool by simp
next
  case (VString n)
  then have "y = x" using assms(1) by (simp add: sameUpToOrder_other sameElement_other)
  then show ?thesis using insertJSON_shape[of db1 t db2 x] assms(2) VString by simp
qed

lemma materialize_reordered:
  assumes "sameUpToOrder x y"
  shows "fst (materialize storeExec t x db1) = fst (materialize storeExec t y db2)
   \<and> rel_option (\<lambda>x y. shape x = shape y) (snd (materialize storeExec t x db1) t)
        (snd (materialize storeExec t y db2) t)"
proof -
  obtain e1 d1 where c1: "CreateTableFromData storeExec t x db1 = (e1, d1)"
    by (cases "CreateTableFromData storeExec t x db1")
  obtain e2 d2 where c2: "CreateTableFromData storeExec t y db2 = (e2, d2)"
    by (cases "CreateTableFromData storeExec t y db2")
  have ag: "e1 = e2 \<and> rel_option (\<lambda>x y. shape x = shape y) (d1 t) (d2 t)"
    using CreateTableFromData_reordered[OF assms, of t db1 db2] c1 c2 by simp
  show ?thesis
    using ag c1 c2 InsertDataToTable_reordered[of x y d1 t d2] assms
    by (cases e1) (auto simp add: materialize_def)
qed

lemma rel_option_shape:
  "rel_option (\<lambda>x y. shape x = shape y) a b \<longleftrightarrow> map_option shape a = map_option shape b"
  by (cases a; cases b) auto

section \<open>The materializer on any store\<close>

lemma execAll_append:
  "execAll exec (ss @ ss') db =
     (case execAll exec ss db of (Some err, db') \<Rightarrow> (Some err, db') | (None, db') \<Rightarrow> execAll exec ss' db')"
  by (induction ss arbitrary: db) (auto split: sum.splits)

lemma execAll_stops:
  "execAll exec ss db = (None, db') \<Longrightarrow> exec s db' = Inl err \<Longrightarrow>
   execAll exec (ss @ s # ss') db = (Some err, db')"
  by (simp add: execAll_append)

lemma bindValue_marshalable: "marshalable v \<Longrightarrow> bindValue v = Inr (boundArg v)"
  by (cases v) simp_all

lemma recordValues_marshalable:
  "list_all (\<lambda>kv. marshalable (snd kv)) r \<Longrightarrow>
   recordValues r = Inr (map (\<lambda>kv. boundArg (snd kv)) r)"
  by (induction r) (auto simp add: bindValue_marshalable)

lemma insertPrimitives_execAll:
  "insertPrimitives exec t items db =
     (map_option InsertPrimitiveFailed (fst (execAll exec (primitiveInserts t items) db)),
      snd (execAll exec (primitiveInserts t items) db))"
  by (induction items arbitrary: db) (auto simp add: primitiveInserts_def split: sum.splits)

lemma insertSingleRecord_execAll:
  "marshalable (VMap r) \<Longrightarrow>
   insertSingleRecord exec t r db =
     (map_option ExecError (fst (execAll exec (recordInsert t (VMap r)) db)),
      snd (execAll exec (recordInsert t (VMap r)) db))"
  by (auto simp add: insertSingleRecord_def recordValues_marshalable split: sum.splits)

lemma insertRecords_execAll:
  "list_all marshalable items \<Longrightarrow>
   insertRecords exec t items db =
     (map_option ExecError (fst (execAll exec (recordInserts t items) db)),
      snd (execAll exec (recordInserts t items) db))"
proof (induction items arbitrary: db)
  case Nil
  show ?case by (simp add: recordInserts_def)
next
  case (Cons item items)
  have rest: "list_all marshalable items" using Cons.prems by simp
  have split: "recordInserts t (item # items) = recordInsert t item @ recordInserts t items"
    by (simp add: recordInserts_def)
  show ?case
  proof (cases item)
    case (VMap r)
    have m: "marshalable (VMap r)" using Cons.prems VMap by simp
    obtain e d where x: "execAll exec (recordInsert t (VMap r)) db = (e, d)"
      by (cases "execAll exec (recordInsert t (VMap r)) db")
    have s: "insertSingleRecord exec t r db = (map_option ExecError e, d)"
      using insertSingleRecord_execAll[OF m, of exec t db] x by simp
    show ?thesis
    proof (cases e)
      case None
      have "insertRecords exec t (item # items) db = insertRecords exec t items d"
        using s None VMap by simp
      moreover have "execAll exec (recordInserts t (item # items)) db = execAll exec (recordInserts t items) d"
        using split x None VMap by (simp add: execAll_append)
      ultimately show ?thesis using Cons.IH[OF rest, of d] by simp
    next
      case (Some err)
      have "insertRecords exec t (item # items) db = (Some (ExecError err), d)"
        using s Some VMap by simp
      moreover have "execAll exec (recordInserts t (item # items)) db = (Some err, d)"
        using split x Some VMap by (simp add: execAll_append)
      ultimately show ?thesis by simp
    qed
  qed (use Cons.IH[OF rest, of db] in \<open>simp_all add: recordInserts_def\<close>)
qed

lemma insertJSON_execAll:
  "marshalable data \<Longrightarrow>
   insertJSON exec t data db =
     (map_option InsertJSONFailed (fst (execAll exec [InsertInto t [''data''] [JSONText data]] db)),
      snd (execAll exec [InsertInto t [''data''] [JSONText data]] db))"
  by (auto simp add: insertJSON_def split: sum.splits)

lemma createQuery_scalar: "isScalar data \<Longrightarrow> createQuery t data = CreateTable t [idColumn, (''data'', ''JSONB'')]"
  by (cases data) (simp_all add: isScalar_def)

lemma InsertDataToTable_scalar: "isScalar data \<Longrightarrow> InsertDataToTable exec t data db = insertJSON exec t data db"
  by (cases data) (simp_all add: isScalar_def)

lemma materialize_scalar_execAll:
  assumes "isScalar data" and "marshalable data"
  shows "(fst (materialize exec t data db) = None) = (fst (execAll exec (scalarStatements t data) db) = None)
    \<and> snd (materialize exec t data db) = snd (execAll exec (scalarStatements t data) db)"
  using assms
  by (auto simp add: materialize_def CreateTableFromData_def createQuery_scalar InsertDataToTable_scalar
      insertJSON_def scalarStatements_def split: sum.splits)

section \<open>The claims\<close>

text \<open>
  C10. In every result of \<open>ProcessRepository\<close> the lists \<open>CreatedTables\<close> and
  \<open>ExecutedFunctions\<close> are the same list; the loop body appends the name of the function
  to both, and does so exactly when the execution gave a value other than \<open>nil\<close> and the
  creation of the table and the insertion both succeeded.
\<close>

theorem executed_equals_created:
  "CreatedTables (fst (fst (ProcessRepository env repoURL w))) =
     ExecutedFunctions (fst (fst (ProcessRepository env repoURL w)))
   \<and> CreatedTables (fst (processFunction env f rw)) =
       CreatedTables (fst rw) @ (if succeeded env f (snd rw) then [Name f] else [])
   \<and> ExecutedFunctions (fst (processFunction env f rw)) =
       ExecutedFunctions (fst rw) @ (if succeeded env f (snd rw) then [Name f] else [])"
proof -
  have "CreatedTables (fst (fst (ProcessRepository env repoURL w))) =
     ExecutedFunctions (fst (fst (ProcessRepository env repoURL w)))"
  proof (cases "snd (fst (ProcessRepository env repoURL w)) = None")
    case True
    show ?thesis
      using ProcessRepository_ok[OF True] processFiles_lists[of "(emptyResult, w)" env "scanned env repoURL"]
      by (simp add: emptyResult_def)
  next
    case False
    show ?thesis
      using ProcessRepository_failed[OF False] by (simp add: emptyResult_def)
  qed
  then show ?thesis
    by (simp add: processFunction_Created processFunction_Executed)
qed

text \<open>
  C1. The type of a column follows the dynamic type of the field: the Go integer types
  give \<open>INTEGER\<close>, the float types \<open>NUMERIC\<close>, \<open>bool\<close> gives \<open>BOOLEAN\<close>, a nested array or
  object \<open>JSONB\<close>, anything else \<open>TEXT\<close>. The claim takes the output \<open>{"a":1,"b":"x"}\<close> to
  give the columns \<open>INTEGER\<close> and \<open>TEXT\<close>. The decoder makes a \<open>float64\<close> of every JSON
  number, so the column \<open>a\<close> of that output is \<open>NUMERIC\<close>.
\<close>

theorem decoded_integer_is_typed_NUMERIC:
  \<open>outcome (exampleEnv [exampleFunction ''GetRecord'' []]) (exampleFunction ''GetRecord'' []) =
     Inr (VMap [(''a'', VFloat64 (Finite 1)), (''b'', VString ''x'')])
   \<and> createQuery ''GetRecord'' (VMap [(''a'', VFloat64 (Finite 1)), (''b'', VString ''x'')]) =
     CreateTable ''GetRecord'' [(''id'', ''SERIAL PRIMARY KEY''), (''a'', ''NUMERIC''), (''b'', ''TEXT'')]
   \<and> getPostgreSQLType (VFloat64 (Finite 1)) \<noteq> ''INTEGER''\<close>
  by (simp add: outcome_def exampleEnv_def exampleFunction_def exampleCall_def exampleUnmarshal_def
      idColumn_def dataColumns_def)

text \<open>
  C7. The scanner is claimed to leave out a path only when one of its segments is
  the name of a reserved directory, not when a segment contains such a name. In the
  tree below \<open>myvendor/b.go\<close> is left out with \<open>vendor/c.go\<close>: the test is whether the
  path contains \<open>vendor/\<close>.
\<close>

theorem similar_directory_name_is_skipped:
  "FindGoFiles ''/tmp/repo_1/repo''
     (Dir ''repo'' [File ''a.go'', Dir ''myvendor'' [File ''b.go''], Dir ''vendor'' [File ''c.go'']]) =
   ([''/tmp/repo_1/repo/a.go''], None)"
  by (simp add: FindGoFiles_def visit_def HasSuffix_def)

text \<open>
  C9. A function with parameters is rejected by \<open>ExecuteFunction\<close> before anything is
  written or started: the world is unchanged, and the loop body adds the function to
  \<open>ProcessedFunctions\<close> and the rejection to \<open>Errors\<close>, and no entry to \<open>ExecutedFunctions\<close> or
  \<open>CreatedTables\<close>. In the result of a repository such a function is in
  \<open>ProcessedFunctions\<close>, its rejection is in \<open>Errors\<close>, the entries of \<open>ExecutedFunctions\<close> all
  come, in order, from functions without parameters, and a subprocess was started for
  those functions only. \<open>ExecutedFunctions\<close> holds names: the name of the rejected function
  is not in it when no function without parameters has the same name.
\<close>

theorem parameters_rejected_before_execution:
  assumes "Parameters f \<noteq> []"
  shows "ExecuteFunction env f w = (Inl (RequiresParameters (Name f)), w)
    \<and> processFunction env f (r, w) =
        (r\<lparr>ProcessedFunctions := ProcessedFunctions r @ [f],
           Errors := Errors r @ [FailedExecute (Name f) (RequiresParameters (Name f))]\<rparr>, w)
    \<and> ExecutedFunctions (fst (processFunction env f (r, w))) = ExecutedFunctions r
    \<and> CreatedTables (fst (processFunction env f (r, w))) = CreatedTables r
    \<and> (snd (fst (ProcessRepository env repoURL w)) = None
          \<and> f \<in> set (discovered env (scanned env repoURL)) \<longrightarrow>
        f \<in> set (ProcessedFunctions (fst (fst (ProcessRepository env repoURL w))))
        \<and> FailedExecute (Name f) (RequiresParameters (Name f))
            \<in> set (Errors (fst (fst (ProcessRepository env repoURL w))))
        \<and> subseq (ExecutedFunctions (fst (fst (ProcessRepository env repoURL w))))
            (map Name (filter (\<lambda>g. Parameters g = []) (discovered env (scanned env repoURL))))
        \<and> spawned (snd (ProcessRepository env repoURL w)) =
            spawned w @ map Name (filter (\<lambda>g. Parameters g = [] \<and> WriteFile env g = None)
                                    (discovered env (scanned env repoURL)))
        \<and> (list_all (\<lambda>g. Parameters g \<noteq> [] \<or> Name g \<noteq> Name f) (discovered env (scanned env repoURL))
             \<longrightarrow> Name f \<notin> set (ExecutedFunctions (fst (fst (ProcessRepository env repoURL w))))))"
proof (intro conjI impI)
  show "ExecuteFunction env f w = (Inl (RequiresParameters (Name f)), w)"
    using assms by (rule ExecuteFunction_rejected)
  show p: "processFunction env f (r, w) =
        (r\<lparr>ProcessedFunctions := ProcessedFunctions r @ [f],
           Errors := Errors r @ [FailedExecute (Name f) (RequiresParameters (Name f))]\<rparr>, w)"
    using assms by (rule processFunction_rejected)
  show "ExecutedFunctions (fst (processFunction env f (r, w))) = ExecutedFunctions r"
    unfolding p by simp
  show "CreatedTables (fst (processFunction env f (r, w))) = CreatedTables r"
    unfolding p by simp
next
  assume a: "snd (fst (ProcessRepository env repoURL w)) = None
          \<and> f \<in> set (discovered env (scanned env repoURL))"
  let ?rw = "processFiles env (scanned env repoURL) (emptyResult, w)"
  have run: "ProcessRepository env repoURL w = ((fst ?rw, None), snd ?rw)"
    using a by (simp add: ProcessRepository_ok)
  show "f \<in> set (ProcessedFunctions (fst (fst (ProcessRepository env repoURL w))))"
    using a by (simp add: run processFiles_Processed)
  show "FailedExecute (Name f) (RequiresParameters (Name f))
            \<in> set (Errors (fst (fst (ProcessRepository env repoURL w))))"
    using a assms by (simp add: run processFiles_rejected_recorded)
  show s: "subseq (ExecutedFunctions (fst (fst (ProcessRepository env repoURL w))))
            (map Name (filter (\<lambda>g. Parameters g = []) (discovered env (scanned env repoURL))))"
    using processFiles_Executed_subseq[of env "scanned env repoURL" "(emptyResult, w)"]
    by (auto simp add: run emptyResult_def)
  show "spawned (snd (ProcessRepository env repoURL w)) =
            spawned w @ map Name (filter (\<lambda>g. Parameters g = [] \<and> WriteFile env g = None)
                                    (discovered env (scanned env repoURL)))"
    by (simp add: run processFiles_spawned)
  assume d: "list_all (\<lambda>g. Parameters g \<noteq> [] \<or> Name g \<noteq> Name f) (discovered env (scanned env repoURL))"
  show "Name f \<notin> set (ExecutedFunctions (fst (fst (ProcessRepository env repoURL w))))"
  proof
    assume "Name f \<in> set (ExecutedFunctions (fst (fst (ProcessRepository env repoURL w))))"
    then have "Name f \<in> set (map Name (filter (\<lambda>g. Parameters g = []) (discovered env (scanned env repoURL))))"
      using s by (rule subseq_member[rotated])
    then show False using d by (auto simp add: list_all_iff)
  qed
qed

theorem parameters_rejected_witness:
  "Parameters (exampleFunction ''WithArgs'' [''id string'']) \<noteq> []
   \<and> snd (fst (ProcessRepository
        (exampleEnv [exampleFunction ''GetMessage'' [], exampleFunction ''WithArgs'' [''id string'']])
        ''u'' emptyWorld)) = None
   \<and> list_all (\<lambda>g. Parameters g \<noteq> [] \<or> Name g \<noteq> Name (exampleFunction ''WithArgs'' [''id string'']))
        [exampleFunction ''GetMessage'' [], exampleFunction ''WithArgs'' [''id string'']]
   \<and> ExecuteFunction
        (exampleEnv [exampleFunction ''GetMessage'' [], exampleFunction ''WithArgs'' [''id string'']])
        (exampleFunction ''WithArgs'' [''id string'']) emptyWorld =
       (Inl (RequiresParameters ''WithArgs''), emptyWorld)
   \<and> exampleFunction ''WithArgs'' [''id string'']
       \<in> set (ProcessedFunctions (fst (fst (ProcessRepository
            (exampleEnv [exampleFunction ''GetMessage'' [], exampleFunction ''WithArgs'' [''id string'']])
            ''u'' emptyWorld))))
   \<and> FailedExecute ''WithArgs'' (RequiresParameters ''WithArgs'')
       \<in> set (Errors (fst (fst (ProcessRepository
            (exampleEnv [exampleFunction ''GetMessage'' [], exampleFunction ''WithArgs'' [''id string'']])
            ''u'' emptyWorld))))
   \<and> ''WithArgs'' \<notin> set (ExecutedFunctions (fst (fst (ProcessRepository
            (exampleEnv [exampleFunction ''GetMessage'' [], exampleFunction ''WithArgs'' [''id string'']])
            ''u'' emptyWorld))))
   \<and> spawned (snd (ProcessRepository
            (exampleEnv [exampleFunction ''GetMessage'' [], exampleFunction ''WithArgs'' [''id string'']])
            ''u'' emptyWorld)) = [''GetMessage'']"
proof -
  let ?f = "exampleFunction ''WithArgs'' [''id string'']"
  let ?fs = "[exampleFunction ''GetMessage'' [], ?f]"
  have p: "Parameters ?f \<noteq> []" by (simp add: exampleFunction_def)
  have n: "Name ?f = ''WithArgs''" by (simp add: exampleFunction_def)
  have ok: "snd (fst (ProcessRepository (exampleEnv ?fs) ''u'' emptyWorld)) = None"
    by (simp add: example_ProcessRepository)
  have d: "?f \<in> set (discovered (exampleEnv ?fs) (scanned (exampleEnv ?fs) ''u''))"
    by (simp add: example_scanned example_discovered)
  have l: "list_all (\<lambda>g. Parameters g \<noteq> [] \<or> Name g \<noteq> Name ?f) ?fs"
    by (simp add: exampleFunction_def)
  have w: "WriteFile (exampleEnv ?fs) = (\<lambda>g. None)" by (simp add: exampleEnv_def)
  have s: "map Name (filter (\<lambda>g. Parameters g = []) ?fs) = [''GetMessage'']"
    by (simp add: exampleFunction_def)
  have pg: "Parameters (exampleFunction ''GetMessage'' []) = []" by (simp add: exampleFunction_def)
  have ng: "Name (exampleFunction ''GetMessage'' []) = ''GetMessage''" by (simp add: exampleFunction_def)
  show ?thesis
    using parameters_rejected_before_execution[OF p, of "exampleEnv ?fs" emptyWorld emptyResult "''u''"]
      ok d p n l
    by (simp add: example_scanned example_discovered emptyWorld_def w pg ng)
qed

text \<open>
  C9, as it is stated, fails when a function without parameters has the name of the
  rejected one: with \<open>GetMessage()\<close> in package \<open>a\<close> and \<open>GetMessage(id string)\<close> in package
  \<open>b\<close>, the second is rejected and its name is in \<open>ExecutedFunctions\<close>.
\<close>

theorem rejected_name_in_executedFunctions:
  "fst (ProcessRepository collisionEnv ''u'' emptyWorld) =
     (\<lparr>ProcessedFunctions =
         [(exampleFunction ''GetMessage'' [])
            \<lparr>FilePath := ''/tmp/repo_1/repo/a/a.go'', PackageName := ''a''\<rparr>,
          (exampleFunction ''GetMessage'' [''id string''])
            \<lparr>FilePath := ''/tmp/repo_1/repo/b/b.go'', PackageName := ''b''\<rparr>],
       CreatedTables = [''GetMessage''],
       Errors = [FailedExecute ''GetMessage'' (RequiresParameters ''GetMessage'')],
       ExecutedFunctions = [''GetMessage'']\<rparr>, None)
   \<and> Parameters ((exampleFunction ''GetMessage'' [''id string''])
            \<lparr>FilePath := ''/tmp/repo_1/repo/b/b.go'', PackageName := ''b''\<rparr>) = [''id string'']
   \<and> Name ((exampleFunction ''GetMessage'' [''id string''])
            \<lparr>FilePath := ''/tmp/repo_1/repo/b/b.go'', PackageName := ''b''\<rparr>) = ''GetMessage''"
  by (simp add: ProcessRepository_def collisionEnv_def FindGoFiles_def visit_def HasSuffix_def
      processFile_def processFunction_def ExecuteFunction_def exampleFunction_def exampleCall_def
      exampleUnmarshal_def emptyResult_def emptyWorld_def Let_def CreateTableFromData_def
      insertJSON_def idColumn_def)

text \<open>
  C3. When \<open>ProcessRepository\<close> returns without an error, \<open>ProcessedFunctions\<close> is the
  list of the functions found in the files that parse, each once and in order. The
  loop body adds the name of a function to \<open>ExecutedFunctions\<close> and \<open>CreatedTables\<close> only
  when every stage through the insertion succeeded, and adds one entry to \<open>Errors\<close> when
  a stage failed; an output that decodes to \<open>nil\<close> gives neither, so a function without
  parameters may leave no trace but its entry in \<open>ProcessedFunctions\<close>. Every function is
  one of the three, and every file that does not parse adds one entry to \<open>Errors\<close>: the
  entries of \<open>ExecutedFunctions\<close> and \<open>Errors\<close> and the functions with a \<open>nil\<close> output are
  as many as the functions and the files that do not parse.
\<close>

theorem every_function_accounted_for:
  assumes "snd (fst (ProcessRepository env repoURL w)) = None"
  shows "ProcessedFunctions (fst (fst (ProcessRepository env repoURL w))) = discovered env (scanned env repoURL)
    \<and> length (ExecutedFunctions (fst (fst (ProcessRepository env repoURL w))))
        + length (Errors (fst (fst (ProcessRepository env repoURL w))))
        + length (filter (returnsNil env) (discovered env (scanned env repoURL)))
      = length (discovered env (scanned env repoURL)) + length (unparsed env (scanned env repoURL))
    \<and> ExecutedFunctions (fst (processFunction env f rw)) =
        ExecutedFunctions (fst rw) @ (if succeeded env f (snd rw) then [Name f] else [])
    \<and> CreatedTables (fst (processFunction env f rw)) =
        CreatedTables (fst rw) @ (if succeeded env f (snd rw) then [Name f] else [])
    \<and> length (Errors (fst (processFunction env f rw))) =
        length (Errors (fst rw)) + (if failed env f (snd rw) then 1 else 0)
    \<and> (if succeeded env f (snd rw) then 1 else 0) + (if failed env f (snd rw) then 1 else 0)
        + (if returnsNil env f then 1 else 0) = (1::nat)"
proof -
  let ?rw = "processFiles env (scanned env repoURL) (emptyResult, w)"
  have run: "ProcessRepository env repoURL w = ((fst ?rw, None), snd ?rw)"
    using assms by (rule ProcessRepository_ok)
  have 1: "ProcessedFunctions (fst (fst (ProcessRepository env repoURL w))) = discovered env (scanned env repoURL)"
    by (simp add: run processFiles_Processed emptyResult_def)
  have 2: "length (ExecutedFunctions (fst (fst (ProcessRepository env repoURL w))))
        + length (Errors (fst (fst (ProcessRepository env repoURL w))))
        + length (filter (returnsNil env) (discovered env (scanned env repoURL)))
      = length (discovered env (scanned env repoURL)) + length (unparsed env (scanned env repoURL))"
    using processFiles_count[of env "scanned env repoURL" "(emptyResult, w)"]
    by (simp add: run emptyResult_def)
  show ?thesis
    using 1 2 three_way[of env f "snd rw"]
    by (simp only: processFunction_Executed processFunction_Created processFunction_Errors simp_thms)
qed

theorem every_function_accounted_for_witness:
  "snd (fst (ProcessRepository (exampleEnv [exampleFunction ''GetNothing'' [], exampleFunction ''Broken'' []])
        ''u'' emptyWorld)) = None
   \<and> ProcessedFunctions (fst (fst (ProcessRepository
        (exampleEnv [exampleFunction ''GetNothing'' [], exampleFunction ''Broken'' []]) ''u'' emptyWorld))) =
      [exampleFunction ''GetNothing'' [], exampleFunction ''Broken'' []]
   \<and> length (ExecutedFunctions (fst (fst (ProcessRepository
        (exampleEnv [exampleFunction ''GetNothing'' [], exampleFunction ''Broken'' []]) ''u'' emptyWorld))))
      + length (Errors (fst (fst (ProcessRepository
        (exampleEnv [exampleFunction ''GetNothing'' [], exampleFunction ''Broken'' []]) ''u'' emptyWorld))))
      + 1 = 2"
proof -
  let ?fs = "[exampleFunction ''GetNothing'' [], exampleFunction ''Broken'' []]"
  have ok: "snd (fst (ProcessRepository (exampleEnv ?fs) ''u'' emptyWorld)) = None"
    by (simp add: example_ProcessRepository)
  have nil: "filter (returnsNil (exampleEnv ?fs)) ?fs = [exampleFunction ''GetNothing'' []]"
    by (simp add: returnsNil_def outcome_def exampleEnv_def exampleFunction_def exampleCall_def
        exampleUnmarshal_def)
  show ?thesis
    using every_function_accounted_for[OF ok, of "exampleFunction ''GetNothing'' []" "(emptyResult, emptyWorld)"] ok nil
    by (simp add: example_scanned example_discovered example_unparsed)
qed

text \<open>
  C3, as it is stated, fails for a function whose output is \<open>null\<close>: it has no
  parameters, it is not in \<open>ExecutedFunctions\<close>, and \<open>Errors\<close> is empty.
\<close>

theorem null_output_leaves_no_error:
  "fst (ProcessRepository (exampleEnv [exampleFunction ''GetNothing'' []]) ''u'' emptyWorld) =
     (\<lparr>ProcessedFunctions = [exampleFunction ''GetNothing'' []], CreatedTables = [], Errors = [],
       ExecutedFunctions = []\<rparr>, None)
   \<and> Parameters (exampleFunction ''GetNothing'' []) = []"
  unfolding example_ProcessRepository
  by (simp add: processFunction_def ExecuteFunction_def exampleEnv_def
      exampleFunction_def exampleCall_def exampleUnmarshal_def emptyResult_def emptyWorld_def Let_def)

text \<open>
  C5. A function that panics is claimed to give an execution error, an entry in
  \<open>Errors\<close> and no table. The generated program recovers the panic and ends with status
  0 and an empty output, which is not JSON, so the value is the empty string: the
  table is created, the row is inserted, and \<open>Errors\<close> stays empty.
\<close>

theorem recovered_panic_creates_table:
  "fst (ProcessRepository (exampleEnv [exampleFunction ''Explode'' []]) ''u'' emptyWorld) =
     (\<lparr>ProcessedFunctions = [exampleFunction ''Explode'' []], CreatedTables = [''Explode''], Errors = [],
       ExecutedFunctions = [''Explode'']\<rparr>, None)
   \<and> store (snd (ProcessRepository (exampleEnv [exampleFunction ''Explode'' []]) ''u'' emptyWorld)) ''Explode'' =
     Some \<lparr>columns = [(''id'', ''SERIAL PRIMARY KEY''), (''data'', ''JSONB'')],
           rows = [[(''data'', JSONText (VString []))]]\<rparr>
   \<and> exampleCall (exampleFunction ''Explode'' []) = Panics"
  unfolding example_ProcessRepository
  by (simp add: processFunction_def ExecuteFunction_def exampleEnv_def
      exampleFunction_def exampleCall_def exampleUnmarshal_def emptyResult_def emptyWorld_def Let_def
      CreateTableFromData_def insertJSON_def idColumn_def TrimSpace_def)

text \<open>
  C8. On the relational store, the outcome of creating and filling the table of a
  function and the table that results depend on the name and the value only, not on
  what the store held before: \<open>CreateTableFromData\<close> first drops the table. So doing it
  twice in succession gives the same outcome and the same table both times, and so
  does the loop body run twice on the same function. When the second run meets the
  entries of the objects in another order, the outcome, the set of column definitions
  and the number of rows are still the same.
\<close>

theorem materialized_table_independent_of_previous_run:
  assumes "sameUpToOrder data data'"
  shows "fst (materialize storeExec t data' (snd (materialize storeExec t data db))) =
           fst (materialize storeExec t data db)
   \<and> map_option shape (snd (materialize storeExec t data' (snd (materialize storeExec t data db))) t) =
       map_option shape (snd (materialize storeExec t data db) t)
   \<and> snd (materialize storeExec t data (snd (materialize storeExec t data db))) t =
       snd (materialize storeExec t data db) t
   \<and> store (snd (processFunction (env\<lparr>Exec := storeExec\<rparr>) f
               (processFunction (env\<lparr>Exec := storeExec\<rparr>) f rw))) (Name f) =
       store (snd (processFunction (env\<lparr>Exec := storeExec\<rparr>) f rw)) (Name f)"
proof -
  let ?first = "materialize storeExec t data db"
  have r: "fst ?first = fst (materialize storeExec t data' (snd ?first))
      \<and> rel_option (\<lambda>x y. shape x = shape y) (snd ?first t)
           (snd (materialize storeExec t data' (snd ?first)) t)"
    using assms by (rule materialize_reordered)
  have 1: "fst (materialize storeExec t data' (snd ?first)) = fst ?first"
    using r by simp
  have 2: "map_option shape (snd (materialize storeExec t data' (snd ?first)) t) =
       map_option shape (snd ?first t)"
    using r by (simp add: rel_option_shape)
  have 3: "snd (materialize storeExec t data (snd ?first)) t = snd ?first t"
    using materialize_any[of t data "snd ?first" db] by simp
  have 4: "store (snd (processFunction (env\<lparr>Exec := storeExec\<rparr>) f
               (processFunction (env\<lparr>Exec := storeExec\<rparr>) f rw))) (Name f) =
       store (snd (processFunction (env\<lparr>Exec := storeExec\<rparr>) f rw)) (Name f)"
    by (auto simp add: processFunction_store outcome_Exec materialize_any split: sum.splits)
  show ?thesis using 1 2 3 4 by blast
qed

theorem materialized_table_independent_witness:
  "sameUpToOrder (VMap [(''a'', VFloat64 (Finite 1)), (''b'', VString ''x'')])
     (VMap [(''b'', VString ''x''), (''a'', VFloat64 (Finite 1))])
   \<and> fst (materialize storeExec ''T'' (VMap [(''b'', VString ''x''), (''a'', VFloat64 (Finite 1))])
         (snd (materialize storeExec ''T'' (VMap [(''a'', VFloat64 (Finite 1)), (''b'', VString ''x'')])
                (\<lambda>t. None)))) = None
   \<and> map_option shape
        (snd (materialize storeExec ''T'' (VMap [(''b'', VString ''x''), (''a'', VFloat64 (Finite 1))])
           (snd (materialize storeExec ''T'' (VMap [(''a'', VFloat64 (Finite 1)), (''b'', VString ''x'')])
                  (\<lambda>t. None)))) ''T'') =
       Some ({(''id'', ''SERIAL PRIMARY KEY''), (''a'', ''NUMERIC''), (''b'', ''TEXT'')}, 1)"
proof -
  have s: "sameUpToOrder (VMap [(''a'', VFloat64 (Finite 1)), (''b'', VString ''x'')])
     (VMap [(''b'', VString ''x''), (''a'', VFloat64 (Finite 1))])"
    by (simp add: sameUpToOrder_def sameElement_def add_mset_commute)
  have m: "materialize storeExec ''T'' (VMap [(''a'', VFloat64 (Finite 1)), (''b'', VString ''x'')])
        (\<lambda>t. None) =
      (None, (\<lambda>t. None)(''T'' := Some \<lparr>columns = [(''id'', ''SERIAL PRIMARY KEY''), (''a'', ''NUMERIC''), (''b'', ''TEXT'')],
                rows = [[(''a'', Bound (VFloat64 (Finite 1))), (''b'', Bound (VString ''x''))]]\<rparr>))"
    by (simp add: materialize_def CreateTableFromData_def insertSingleRecord_def idColumn_def dataColumns_def)
  show ?thesis
    using materialized_table_independent_of_previous_run[OF s, of "''T''" "\<lambda>t. None"] s
    unfolding m by (auto simp add: shape_def)
qed

text \<open>
  C4. An array is classified by its first element alone. An empty array gives the
  \<open>data JSONB\<close> column and no \<open>INSERT\<close>. When the first element is an object the columns
  come from it, and the insertion sends, on any store and when the values can be
  serialized, one \<open>INSERT\<close> for each object with at least one key, in order, up to the
  first one the store refuses; the elements that are not objects and the objects
  without keys are passed over. When the first element is not an object the table has
  the single column \<open>value TEXT\<close>, and the insertion sends one \<open>INSERT\<close> for each element,
  objects included, binding the text of that element, up to the first one the store
  refuses.
\<close>

theorem array_classified_by_first_element:
  "createQuery t (VSlice []) = CreateTable t [idColumn, (''data'', ''JSONB'')]
   \<and> InsertDataToTable exec t (VSlice []) db = (None, db)
   \<and> createQuery t (VSlice (VMap r # items)) = CreateTable t (idColumn # dataColumns r)
   \<and> (list_all marshalable (VMap r # items) \<longrightarrow>
         InsertDataToTable exec t (VSlice (VMap r # items)) db =
           (map_option ExecError (fst (execAll exec (recordInserts t (VMap r # items)) db)),
            snd (execAll exec (recordInserts t (VMap r # items)) db)))
   \<and> (\<not> isObject first \<longrightarrow>
         createQuery t (VSlice (first # items)) = CreateTable t [idColumn, (''value'', ''TEXT'')]
       \<and> InsertDataToTable exec t (VSlice (first # items)) db =
           (map_option InsertPrimitiveFailed (fst (execAll exec (primitiveInserts t (first # items)) db)),
            snd (execAll exec (primitiveInserts t (first # items)) db)))"
proof (intro conjI impI)
  assume "list_all marshalable (VMap r # items)"
  then show "InsertDataToTable exec t (VSlice (VMap r # items)) db =
           (map_option ExecError (fst (execAll exec (recordInserts t (VMap r # items)) db)),
            snd (execAll exec (recordInserts t (VMap r # items)) db))"
    using insertRecords_execAll[of "VMap r # items" exec t db] by simp
next
  assume a: "\<not> isObject first"
  show "createQuery t (VSlice (first # items)) = CreateTable t [idColumn, (''value'', ''TEXT'')]"
    using a by (cases first) simp_all
  have "InsertDataToTable exec t (VSlice (first # items)) db = insertPrimitives exec t (first # items) db"
    using a by (cases first) simp_all
  then show "InsertDataToTable exec t (VSlice (first # items)) db =
           (map_option InsertPrimitiveFailed (fst (execAll exec (primitiveInserts t (first # items)) db)),
            snd (execAll exec (primitiveInserts t (first # items)) db))"
    by (simp only: insertPrimitives_execAll)
qed simp_all

theorem array_classified_by_first_element_witness:
  "\<not> isObject (VFloat64 (Finite 1))
   \<and> InsertDataToTable recordExec ''T'' (VSlice [VFloat64 (Finite 1), VMap [(''a'', VFloat64 (Finite 2))]]) [] =
       (None, [InsertInto ''T'' [''value''] [FmtText (VFloat64 (Finite 1))],
               InsertInto ''T'' [''value''] [FmtText (VMap [(''a'', VFloat64 (Finite 2))])]])
   \<and> list_all marshalable [VMap [(''a'', VFloat64 (Finite 1))], VMap [], VString ''x'',
                            VMap [(''a'', VFloat64 (Finite 3))]]
   \<and> InsertDataToTable recordExec ''T''
        (VSlice [VMap [(''a'', VFloat64 (Finite 1))], VMap [], VString ''x'',
                 VMap [(''a'', VFloat64 (Finite 3))]]) [] =
       (None, [InsertInto ''T'' [''a''] [Bound (VFloat64 (Finite 1))],
               InsertInto ''T'' [''a''] [Bound (VFloat64 (Finite 3))]])"
proof -
  have p: "\<not> isObject (VFloat64 (Finite 1))" by simp
  have m: "list_all marshalable [VMap [(''a'', VFloat64 (Finite 1))], VMap [], VString ''x'',
                            VMap [(''a'', VFloat64 (Finite 3))]]" by simp
  have a: "InsertDataToTable recordExec ''T'' (VSlice [VFloat64 (Finite 1), VMap [(''a'', VFloat64 (Finite 2))]]) [] =
       (None, [InsertInto ''T'' [''value''] [FmtText (VFloat64 (Finite 1))],
               InsertInto ''T'' [''value''] [FmtText (VMap [(''a'', VFloat64 (Finite 2))])]])"
    using array_classified_by_first_element[of "''T''" recordExec "[]" "[]"
        "[VMap [(''a'', VFloat64 (Finite 2))]]" "VFloat64 (Finite 1)"] p
    by (simp add: primitiveInserts_def recordExec_def)
  have b: "InsertDataToTable recordExec ''T''
        (VSlice [VMap [(''a'', VFloat64 (Finite 1))], VMap [], VString ''x'',
                 VMap [(''a'', VFloat64 (Finite 3))]]) [] =
       (None, [InsertInto ''T'' [''a''] [Bound (VFloat64 (Finite 1))],
               InsertInto ''T'' [''a''] [Bound (VFloat64 (Finite 3))]])"
    using array_classified_by_first_element[of "''T''" recordExec "[]" "[(''a'', VFloat64 (Finite 1))]"
        "[VMap [], VString ''x'', VMap [(''a'', VFloat64 (Finite 3))]]" "VNil"] m
    by (simp add: recordInserts_def recordExec_def)
  show ?thesis using p m a b by simp
qed

text \<open>
  C4, as it is stated, fails for the mixed array \<open>[{"a":1},"x"]\<close>: it is not given the
  \<open>value TEXT\<close> column; its columns are those of the first element and nothing is sent
  for the string.
\<close>

theorem mixed_array_treated_as_object_array:
  "materialize recordExec ''T'' (VSlice [VMap [(''a'', VFloat64 (Finite 1))], VString ''x'']) [] =
     (None, [DropTableIfExists ''T'',
             CreateTable ''T'' [(''id'', ''SERIAL PRIMARY KEY''), (''a'', ''NUMERIC'')],
             InsertInto ''T'' [''a''] [Bound (VFloat64 (Finite 1))]])"
  by (simp add: materialize_def CreateTableFromData_def insertSingleRecord_def idColumn_def
      dataColumns_def recordExec_def)

text \<open>
  C2. A value that is neither an object nor an array nor \<open>nil\<close> gives a table with the
  single column \<open>data JSONB\<close>. For such a value that can be serialized, on any store,
  the loop body sends the three statements of the table, the last an \<open>INSERT\<close> of the
  serialized value into \<open>data\<close>, up to the first one the store refuses. When the store
  accepts the three, the name of the function is added to \<open>CreatedTables\<close> and
  \<open>ExecutedFunctions\<close> and nothing to \<open>Errors\<close>; when it refuses one, one entry is added to
  \<open>Errors\<close> and nothing to the two lists. A \<open>nil\<close> value is passed over: the store and the
  three lists stay as they were.
\<close>

theorem scalar_output_single_data_column:
  assumes "outcome env f = Inr data"
  shows "(isScalar data \<longrightarrow>
            createQuery (Name f) data = CreateTable (Name f) [idColumn, (''data'', ''JSONB'')])
       \<and> (isScalar data \<and> marshalable data
            \<and> fst (execAll (Exec env) (scalarStatements (Name f) data) (store (snd rw))) = None \<longrightarrow>
            store (snd (processFunction env f rw)) =
              snd (execAll (Exec env) (scalarStatements (Name f) data) (store (snd rw)))
          \<and> CreatedTables (fst (processFunction env f rw)) = CreatedTables (fst rw) @ [Name f]
          \<and> ExecutedFunctions (fst (processFunction env f rw)) = ExecutedFunctions (fst rw) @ [Name f]
          \<and> Errors (fst (processFunction env f rw)) = Errors (fst rw))
       \<and> (isScalar data \<and> marshalable data
            \<and> fst (execAll (Exec env) (scalarStatements (Name f) data) (store (snd rw))) \<noteq> None \<longrightarrow>
            store (snd (processFunction env f rw)) =
              snd (execAll (Exec env) (scalarStatements (Name f) data) (store (snd rw)))
          \<and> CreatedTables (fst (processFunction env f rw)) = CreatedTables (fst rw)
          \<and> ExecutedFunctions (fst (processFunction env f rw)) = ExecutedFunctions (fst rw)
          \<and> length (Errors (fst (processFunction env f rw))) = length (Errors (fst rw)) + 1)
       \<and> (data = VNil \<longrightarrow>
            store (snd (processFunction env f rw)) = store (snd rw)
          \<and> CreatedTables (fst (processFunction env f rw)) = CreatedTables (fst rw)
          \<and> ExecutedFunctions (fst (processFunction env f rw)) = ExecutedFunctions (fst rw)
          \<and> Errors (fst (processFunction env f rw)) = Errors (fst rw))"
proof -
  let ?x = "execAll (Exec env) (scalarStatements (Name f) data) (store (snd rw))"
  let ?m = "materialize (Exec env) (Name f) data (store (snd rw))"
  have 1: "isScalar data \<Longrightarrow>
      createQuery (Name f) data = CreateTable (Name f) [idColumn, (''data'', ''JSONB'')]"
    by (rule createQuery_scalar)
  have 2: "store (snd (processFunction env f rw)) = snd ?x
          \<and> CreatedTables (fst (processFunction env f rw)) = CreatedTables (fst rw) @ [Name f]
          \<and> ExecutedFunctions (fst (processFunction env f rw)) = ExecutedFunctions (fst rw) @ [Name f]
          \<and> Errors (fst (processFunction env f rw)) = Errors (fst rw)"
    if a: "isScalar data \<and> marshalable data \<and> fst ?x = None"
  proof -
    have m: "fst ?m = None \<and> snd ?m = snd ?x"
      using materialize_scalar_execAll[of data "Exec env" "Name f" "store (snd rw)"] a by simp
    have nn: "data \<noteq> VNil" using a by (simp add: isScalar_def)
    have s: "succeeded env f (snd rw)" using assms m nn by (simp add: succeeded_def)
    have nf: "\<not> failed env f (snd rw)" using assms m nn by (simp add: failed_def)
    show ?thesis
      using assms m nn s processFunction_Errors_same[OF nf]
      by (simp add: processFunction_store processFunction_Created processFunction_Executed)
  qed
  have 3: "store (snd (processFunction env f rw)) = snd ?x
          \<and> CreatedTables (fst (processFunction env f rw)) = CreatedTables (fst rw)
          \<and> ExecutedFunctions (fst (processFunction env f rw)) = ExecutedFunctions (fst rw)
          \<and> length (Errors (fst (processFunction env f rw))) = length (Errors (fst rw)) + 1"
    if a: "isScalar data \<and> marshalable data \<and> fst ?x \<noteq> None"
  proof -
    have m: "fst ?m \<noteq> None \<and> snd ?m = snd ?x"
      using materialize_scalar_execAll[of data "Exec env" "Name f" "store (snd rw)"] a by simp
    have nn: "data \<noteq> VNil" using a by (simp add: isScalar_def)
    have s: "\<not> succeeded env f (snd rw)" using assms m nn by (simp add: succeeded_def)
    have fl: "failed env f (snd rw)" using assms m nn by (simp add: failed_def)
    show ?thesis
      using assms m nn s fl
      by (simp add: processFunction_store processFunction_Created processFunction_Executed
          processFunction_Errors)
  qed
  have 4: "store (snd (processFunction env f rw)) = store (snd rw)
          \<and> CreatedTables (fst (processFunction env f rw)) = CreatedTables (fst rw)
          \<and> ExecutedFunctions (fst (processFunction env f rw)) = ExecutedFunctions (fst rw)
          \<and> Errors (fst (processFunction env f rw)) = Errors (fst rw)"
    if a: "data = VNil"
  proof -
    have s: "\<not> succeeded env f (snd rw)" using assms a by (simp add: succeeded_def)
    have nf: "\<not> failed env f (snd rw)" using assms a by (simp add: failed_def)
    show ?thesis
      using assms a s processFunction_Errors_same[OF nf]
      by (simp add: processFunction_store processFunction_Created processFunction_Executed)
  qed
  show ?thesis using 1 2 3 4 by blast
qed

theorem scalar_output_single_data_column_witness:
  "isScalar (VString ''Hello'') \<and> marshalable (VString ''Hello'')
   \<and> fst (execAll storeExec (scalarStatements ''GetMessage'' (VString ''Hello'')) (\<lambda>t. None)) = None
   \<and> store (snd (processFunction (exampleEnv []) (exampleFunction ''GetMessage'' [])
                (emptyResult, emptyWorld))) ''GetMessage'' =
       Some \<lparr>columns = [idColumn, (''data'', ''JSONB'')],
             rows = [[(''data'', JSONText (VString ''Hello''))]]\<rparr>
   \<and> ExecutedFunctions (fst (processFunction (exampleEnv []) (exampleFunction ''GetMessage'' [])
                (emptyResult, emptyWorld))) = [''GetMessage'']
   \<and> CreatedTables (fst (processFunction (exampleEnv []) (exampleFunction ''GetMessage'' [])
                (emptyResult, emptyWorld))) = [''GetMessage'']
   \<and> fst (execAll reservedExec (scalarStatements ''Default'' (VString ''Hello'')) (\<lambda>t. None)) =
       Some ''syntax error''
   \<and> ExecutedFunctions (fst (processFunction reservedEnv (exampleFunction ''Default'' [])
                (emptyResult, emptyWorld))) = []
   \<and> CreatedTables (fst (processFunction reservedEnv (exampleFunction ''Default'' [])
                (emptyResult, emptyWorld))) = []
   \<and> length (Errors (fst (processFunction reservedEnv (exampleFunction ''Default'' [])
                (emptyResult, emptyWorld)))) = 1
   \<and> store (snd (processFunction (exampleEnv []) (exampleFunction ''GetNothing'' [])
                (emptyResult, emptyWorld))) = store emptyWorld
   \<and> ExecutedFunctions (fst (processFunction (exampleEnv []) (exampleFunction ''GetNothing'' [])
                (emptyResult, emptyWorld))) = []"
proof -
  have nm: "Name (exampleFunction ''GetMessage'' []) = ''GetMessage''" by (simp add: exampleFunction_def)
  have nd: "Name (exampleFunction ''Default'' []) = ''Default''" by (simp add: exampleFunction_def)
  have s: "isScalar (VString ''Hello'') \<and> marshalable (VString ''Hello'')" by (simp add: isScalar_def)
  have e: "Exec (exampleEnv []) = storeExec" by (simp add: exampleEnv_def)
  have r: "Exec reservedEnv = reservedExec" by (simp add: reservedEnv_def)
  have w: "store (snd (emptyResult, emptyWorld)) = (\<lambda>t. None)" by (simp add: emptyWorld_def)
  have x1: "execAll storeExec (scalarStatements ''GetMessage'' (VString ''Hello'')) (\<lambda>t. None) =
      (None, (\<lambda>t. None)(''GetMessage'' := Some \<lparr>columns = [idColumn, (''data'', ''JSONB'')],
             rows = [[(''data'', JSONText (VString ''Hello''))]]\<rparr>))"
    by (simp add: scalarStatements_def idColumn_def)
  have x2: "execAll reservedExec (scalarStatements ''Default'' (VString ''Hello'')) (\<lambda>t. None) =
      (Some ''syntax error'', \<lambda>t. None)"
    by (simp add: scalarStatements_def reservedExec_def)
  have a: "store (snd (processFunction (exampleEnv []) (exampleFunction ''GetMessage'' [])
                (emptyResult, emptyWorld))) ''GetMessage'' =
       Some \<lparr>columns = [idColumn, (''data'', ''JSONB'')],
             rows = [[(''data'', JSONText (VString ''Hello''))]]\<rparr>
   \<and> ExecutedFunctions (fst (processFunction (exampleEnv []) (exampleFunction ''GetMessage'' [])
                (emptyResult, emptyWorld))) = [''GetMessage'']
   \<and> CreatedTables (fst (processFunction (exampleEnv []) (exampleFunction ''GetMessage'' [])
                (emptyResult, emptyWorld))) = [''GetMessage'']"
    using scalar_output_single_data_column[OF example_outcome_GetMessage, of "[]" "(emptyResult, emptyWorld)"] s
    unfolding nm e w x1 by (simp add: emptyResult_def)
  have b: "ExecutedFunctions (fst (processFunction reservedEnv (exampleFunction ''Default'' [])
                (emptyResult, emptyWorld))) = []
   \<and> CreatedTables (fst (processFunction reservedEnv (exampleFunction ''Default'' [])
                (emptyResult, emptyWorld))) = []
   \<and> length (Errors (fst (processFunction reservedEnv (exampleFunction ''Default'' [])
                (emptyResult, emptyWorld)))) = 1"
    using scalar_output_single_data_column[OF reserved_outcome, of "(emptyResult, emptyWorld)"] s
    unfolding nd r w x2 by (simp add: emptyResult_def)
  have c: "store (snd (processFunction (exampleEnv []) (exampleFunction ''GetNothing'' [])
                (emptyResult, emptyWorld))) = store emptyWorld
   \<and> ExecutedFunctions (fst (processFunction (exampleEnv []) (exampleFunction ''GetNothing'' [])
                (emptyResult, emptyWorld))) = []"
    using scalar_output_single_data_column[OF example_outcome_GetNothing, of "[]" "(emptyResult, emptyWorld)"]
    by (simp add: emptyResult_def)
  show ?thesis using s a b c x1 x2 by simp
qed

text \<open>
  C2, as it is stated, fails for an output that decodes to \<open>nil\<close>: the function gets no
  table and is in neither list.
\<close>

theorem null_output_makes_no_table:
  "outcome (exampleEnv [exampleFunction ''GetNothing'' []]) (exampleFunction ''GetNothing'' []) = Inr VNil
   \<and> CreatedTables (fst (fst (ProcessRepository (exampleEnv [exampleFunction ''GetNothing'' []]) ''u''
        emptyWorld))) = []
   \<and> ExecutedFunctions (fst (fst (ProcessRepository (exampleEnv [exampleFunction ''GetNothing'' []]) ''u''
        emptyWorld))) = []
   \<and> store (snd (ProcessRepository (exampleEnv [exampleFunction ''GetNothing'' []]) ''u'' emptyWorld))
        ''GetNothing'' = None"
  unfolding example_ProcessRepository
  by (simp add: processFunction_def ExecuteFunction_def outcome_def exampleEnv_def
      exampleFunction_def exampleCall_def exampleUnmarshal_def emptyResult_def emptyWorld_def Let_def)

text \<open>
  C6. For an array whose first element is an object and whose values can be
  serialized, on any store: the table is created as for the first element alone; the
  insertion sends one \<open>INSERT\<close> for each object with at least one key, naming the keys of
  that object and binding its values, in order, up to the first one the store
  refuses, and nothing else, so the columns are never widened. When the store refuses
  the \<open>INSERT\<close> of an element, as for a key that is not a column, the insertion returns
  that error with the store as the earlier elements left it: that element and the
  later ones get no row.
\<close>

theorem object_array_columns_from_first_element:
  assumes "list_all marshalable (VMap first # items)"
  shows "CreateTableFromData exec t (VSlice (VMap first # items)) db =
           CreateTableFromData exec t (VSlice [VMap first]) db
    \<and> createQuery t (VSlice (VMap first # items)) = CreateTable t (idColumn # dataColumns first)
    \<and> InsertDataToTable exec t (VSlice (VMap first # items)) db =
         (map_option ExecError (fst (execAll exec (recordInserts t (VMap first # items)) db)),
          snd (execAll exec (recordInserts t (VMap first # items)) db))
    \<and> (\<forall>earlier r later db' err.
          items = earlier @ VMap r # later \<and> r \<noteq> []
          \<and> execAll exec (recordInserts t (VMap first # earlier)) db = (None, db')
          \<and> exec (InsertInto t (map fst r) (map (\<lambda>kv. boundArg (snd kv)) r)) db' = Inl err \<longrightarrow>
          InsertDataToTable exec t (VSlice (VMap first # items)) db = (Some (ExecError err), db'))"
proof -
  have i: "InsertDataToTable exec t (VSlice (VMap first # items)) db =
         (map_option ExecError (fst (execAll exec (recordInserts t (VMap first # items)) db)),
          snd (execAll exec (recordInserts t (VMap first # items)) db))"
    using insertRecords_execAll[OF assms, of exec t db] by simp
  have s: "InsertDataToTable exec t (VSlice (VMap first # items)) db = (Some (ExecError err), db')"
    if a: "items = earlier @ VMap r # later" "r \<noteq> []"
      "execAll exec (recordInserts t (VMap first # earlier)) db = (None, db')"
      "exec (InsertInto t (map fst r) (map (\<lambda>kv. boundArg (snd kv)) r)) db' = Inl err"
    for earlier r later db' err
  proof -
    have "recordInserts t (VMap first # items) =
        recordInserts t (VMap first # earlier)
        @ InsertInto t (map fst r) (map (\<lambda>kv. boundArg (snd kv)) r) # recordInserts t later"
      using a(1,2) by (simp add: recordInserts_def)
    then have "execAll exec (recordInserts t (VMap first # items)) db = (Some err, db')"
      using execAll_stops[OF a(3,4)] by simp
    then show ?thesis using i by simp
  qed
  have c: "CreateTableFromData exec t (VSlice (VMap first # items)) db =
           CreateTableFromData exec t (VSlice [VMap first]) db"
  proof -
    have q: "createQuery t (VSlice (VMap first # items)) = createQuery t (VSlice [VMap first])"
      by simp
    show ?thesis unfolding CreateTableFromData_def q by (rule refl)
  qed
  have k: "createQuery t (VSlice (VMap first # items)) = CreateTable t (idColumn # dataColumns first)"
    by simp
  show ?thesis using c k i s by blast
qed

theorem object_array_columns_from_first_element_witness:
  "list_all marshalable [VMap [(''a'', VFloat64 (Finite 1))], VMap [(''b'', VFloat64 (Finite 2))],
                         VMap [(''a'', VFloat64 (Finite 3))]]
   \<and> execAll storeExec (recordInserts ''T'' [VMap [(''a'', VFloat64 (Finite 1))]])
        ((\<lambda>t. None)(''T'' := Some \<lparr>columns = [idColumn, (''a'', ''NUMERIC'')], rows = []\<rparr>)) =
       (None, (\<lambda>t. None)(''T'' := Some \<lparr>columns = [idColumn, (''a'', ''NUMERIC'')],
                                          rows = [[(''a'', Bound (VFloat64 (Finite 1)))]]\<rparr>))
   \<and> storeExec (InsertInto ''T'' [''b''] [Bound (VFloat64 (Finite 2))])
        ((\<lambda>t. None)(''T'' := Some \<lparr>columns = [idColumn, (''a'', ''NUMERIC'')],
                                   rows = [[(''a'', Bound (VFloat64 (Finite 1)))]]\<rparr>)) =
       Inl ''column does not exist''
   \<and> InsertDataToTable storeExec ''T''
        (VSlice [VMap [(''a'', VFloat64 (Finite 1))], VMap [(''b'', VFloat64 (Finite 2))],
                 VMap [(''a'', VFloat64 (Finite 3))]])
        ((\<lambda>t. None)(''T'' := Some \<lparr>columns = [idColumn, (''a'', ''NUMERIC'')], rows = []\<rparr>)) =
       (Some (ExecError ''column does not exist''),
        (\<lambda>t. None)(''T'' := Some \<lparr>columns = [idColumn, (''a'', ''NUMERIC'')],
                                  rows = [[(''a'', Bound (VFloat64 (Finite 1)))]]\<rparr>))"
proof -
  let ?db = "(\<lambda>t. None)(''T'' := Some \<lparr>columns = [idColumn, (''a'', ''NUMERIC'')], rows = []\<rparr>)"
  let ?db' = "(\<lambda>t. None)(''T'' := Some \<lparr>columns = [idColumn, (''a'', ''NUMERIC'')],
                                  rows = [[(''a'', Bound (VFloat64 (Finite 1)))]]\<rparr>)"
  have m: "list_all marshalable (VMap [(''a'', VFloat64 (Finite 1))]
        # [VMap [(''b'', VFloat64 (Finite 2))], VMap [(''a'', VFloat64 (Finite 3))]])"
    by simp
  have x: "execAll storeExec (recordInserts ''T'' (VMap [(''a'', VFloat64 (Finite 1))] # [])) ?db = (None, ?db')"
    by (simp add: recordInserts_def idColumn_def)
  have r: "storeExec (InsertInto ''T'' (map fst [(''b'', VFloat64 (Finite 2))])
        (map (\<lambda>kv. boundArg (snd kv)) [(''b'', VFloat64 (Finite 2))])) ?db' = Inl ''column does not exist''"
    by (simp add: idColumn_def)
  have i: "[VMap [(''b'', VFloat64 (Finite 2))], VMap [(''a'', VFloat64 (Finite 3))]] =
      [] @ VMap [(''b'', VFloat64 (Finite 2))] # [VMap [(''a'', VFloat64 (Finite 3))]]
      \<and> [(''b'', VFloat64 (Finite 2))] \<noteq> []"
    by simp
  have "InsertDataToTable storeExec ''T''
        (VSlice (VMap [(''a'', VFloat64 (Finite 1))]
          # [VMap [(''b'', VFloat64 (Finite 2))], VMap [(''a'', VFloat64 (Finite 3))]])) ?db =
       (Some (ExecError ''column does not exist''), ?db')"
    using object_array_columns_from_first_element[OF m, of storeExec "''T''" ?db] i x r by blast
  then show ?thesis using m x r by simp
qed

text \<open>
  C6, as it is stated, fails for the array \<open>[{"a":1},{},{"b":2},{"a":3}]\<close>. On a store
  that accepts every statement three \<open>INSERT\<close>s are sent for the four elements: the
  object without keys gets no row. On the relational store the \<open>INSERT\<close> of the third
  element is refused and the fourth is never sent: the table has one row.
\<close>

theorem object_elements_without_a_row:
  "materialize recordExec ''T''
     (VSlice [VMap [(''a'', VFloat64 (Finite 1))], VMap [], VMap [(''b'', VFloat64 (Finite 2))],
              VMap [(''a'', VFloat64 (Finite 3))]]) [] =
     (None, [DropTableIfExists ''T'',
             CreateTable ''T'' [(''id'', ''SERIAL PRIMARY KEY''), (''a'', ''NUMERIC'')],
             InsertInto ''T'' [''a''] [Bound (VFloat64 (Finite 1))],
             InsertInto ''T'' [''b''] [Bound (VFloat64 (Finite 2))],
             InsertInto ''T'' [''a''] [Bound (VFloat64 (Finite 3))]])
   \<and> fst (materialize storeExec ''T''
     (VSlice [VMap [(''a'', VFloat64 (Finite 1))], VMap [], VMap [(''b'', VFloat64 (Finite 2))],
              VMap [(''a'', VFloat64 (Finite 3))]]) (\<lambda>t. None)) =
       Some (ExecError ''column does not exist'')
   \<and> snd (materialize storeExec ''T''
     (VSlice [VMap [(''a'', VFloat64 (Finite 1))], VMap [], VMap [(''b'', VFloat64 (Finite 2))],
              VMap [(''a'', VFloat64 (Finite 3))]]) (\<lambda>t. None)) ''T'' =
       Some \<lparr>columns = [(''id'', ''SERIAL PRIMARY KEY''), (''a'', ''NUMERIC'')],
             rows = [[(''a'', Bound (VFloat64 (Finite 1)))]]\<rparr>"
  by (simp add: materialize_def CreateTableFromData_def insertSingleRecord_def idColumn_def
      dataColumns_def recordExec_def)

end
